theory Spec2Isabelle
  imports Complex_Main
begin

section \<open>Elastic-net regularised GLM of the glmnet tutorial notebook\<close>

text \<open>
  The notebook \<^verbatim>\<open>notebooks/glmnet_tutorial.ipynb\<close> (Python 2.7, numpy) defines the
  softplus Poisson-like GLM, its elastic-net objective, gradients and Hessian terms, the
  proximal operator, and two path solvers: \<^verbatim>\<open>fitmodel\<close> (cyclical coordinate descent)
  and \<^verbatim>\<open>fitmodel_graddesc\<close> (proximal batch gradient descent).

  Conventions of the embedding.
  \<^item> numpy's float64 values are read as real numbers: rounding, overflow of \<^verbatim>\<open>exp\<close>
    and signed zeros are outside the model. Where numpy divides by a zero array entry it
    warns, yields \<^verbatim>\<open>inf\<close> or \<^verbatim>\<open>nan\<close> and the run goes on with these values (later it may
    raise, as \<^verbatim>\<open>np.linalg.norm\<close> does on an array that holds \<^verbatim>\<open>nan\<close>, or return them).
    The reals have no such values: the embedding follows a run up to the first division
    by 0 and ends there with the value \<open>NonFinite\<close>, which says that the run has left
    the embedding, not that the program stops. The statements below are about runs and
    updates inside the embedding.
  \<^item> A one-dimensional array, and a column of shape \<^verbatim>\<open>(n,1)\<close>, is the list of its
    entries; a two-dimensional array is the list of its rows, all of one length. The
    design matrix \<^verbatim>\<open>x\<close> has shape \<^verbatim>\<open>(n,p)\<close> with \<open>n \<ge> 1\<close> and \<open>p \<ge> 1\<close>
    (\<^verbatim>\<open>np.linalg.norm(beta,2)\<close> refuses an empty column), the response \<^verbatim>\<open>y\<close> is a column of
    \<open>n\<close> entries.
  \<^item> \<^verbatim>\<open>print\<close> statements are left out.
\<close>

subsection \<open>numpy helpers\<close>

type_synonym vec = "real list"
type_synonym mat = "real list list"

text \<open>\<^verbatim>\<open>x.shape[1]\<close> of an array of at least one row.\<close>

definition ncols :: "mat \<Rightarrow> nat" where
  "ncols x = (case x of [] \<Rightarrow> 0 | r # _ \<Rightarrow> length r)"

text \<open>\<^verbatim>\<open>x[:,k]\<close>: column \<open>k\<close>, an array of shape \<^verbatim>\<open>(n,)\<close>.\<close>

definition column :: "mat \<Rightarrow> nat \<Rightarrow> vec" where
  "column x k = map (\<lambda>row. row ! k) x"

text \<open>One entry of \<^verbatim>\<open>np.dot(x, beta)\<close>: a row of \<^verbatim>\<open>x\<close> times the column \<^verbatim>\<open>beta\<close>.\<close>

definition dot :: "vec \<Rightarrow> vec \<Rightarrow> real" where
  "dot row b = sum_list (map2 (*) row b)"

text \<open>
  \<^verbatim>\<open>np.dot(np.transpose(v), x)\<close> for a column \<^verbatim>\<open>v\<close> of shape \<^verbatim>\<open>(n,1)\<close>: the row of the
  \<open>p\<close> sums \<open>\<Sum>i. v i * x i j\<close>.
\<close>

definition vecmat :: "vec \<Rightarrow> mat \<Rightarrow> vec" where
  "vecmat v x = map (\<lambda>j. sum_list (map2 (\<lambda>vi row. vi * row ! j) v x)) [0..<ncols x]"

text \<open>\<^verbatim>\<open>np.sum\<close> of a two-dimensional array: the sum of all entries.\<close>

definition sum2 :: "mat \<Rightarrow> real" where
  "sum2 a = sum_list (map sum_list a)"

text \<open>
  Broadcasting of a two-dimensional array \<^verbatim>\<open>a\<close> of shape \<^verbatim>\<open>(n,m)\<close> against a
  one-dimensional array \<^verbatim>\<open>v\<close> of shape \<^verbatim>\<open>(k,)\<close>: numpy aligns \<^verbatim>\<open>v\<close> with the columns,
  stretches an axis of length 1, and gives shape \<^verbatim>\<open>(n, max m k)\<close>. (Lengths \<open>m \<noteq> k\<close>
  both above 1 raise in numpy; in \<^verbatim>\<open>fitmodel\<close> \<open>m\<close> is 1 or \<open>n\<close> and \<open>k\<close> is \<open>n\<close>.)
\<close>

definition bc2 :: "(real \<Rightarrow> real \<Rightarrow> real) \<Rightarrow> mat \<Rightarrow> vec \<Rightarrow> mat" where
  "bc2 f a v =
     map (\<lambda>row. map (\<lambda>j. f (row ! (if length row = 1 then 0 else j))
                            (v ! (if length v = 1 then 0 else j)))
                      [0..<max (length row) (length v)]) a"

text \<open>
  A column \<^verbatim>\<open>y\<close> of shape \<^verbatim>\<open>(n,1)\<close> against a two-dimensional array of \<open>n\<close> rows:
  entry \<open>i\<close> of the column meets every entry of row \<open>i\<close>.
\<close>

definition bcol :: "(real \<Rightarrow> real \<Rightarrow> real) \<Rightarrow> vec \<Rightarrow> mat \<Rightarrow> mat" where
  "bcol f y a = map2 (\<lambda>yi row. map (f yi) row) y a"

text \<open>An elementwise operation on two arrays of the same two-dimensional shape.\<close>

definition mat2 :: "(real \<Rightarrow> real \<Rightarrow> real) \<Rightarrow> mat \<Rightarrow> mat \<Rightarrow> mat" where
  "mat2 f a b = map2 (map2 f) a b"

subsection \<open>Conditional intensity, log-likelihood, penalty, objective\<close>

text \<open>\<^verbatim>\<open>np.spacing(1)\<close>: the gap between 1.0 and the next float64.\<close>

definition eps :: real where
  "eps = 1 / 2 ^ 52"

text \<open>\<^verbatim>\<open>qu(z) = np.log(1+eps+np.exp(z))\<close>, on one entry.\<close>

definition qu :: "real \<Rightarrow> real" where
  "qu z = ln (1 + eps + exp z)"

text \<open>\<^verbatim>\<open>scipy.special.expit\<close>, the logistic sigmoid, on one entry.\<close>

definition expit :: "real \<Rightarrow> real" where
  "expit z = 1 / (1 + exp (- z))"

text \<open>\<^verbatim>\<open>lmb(beta0, beta, x)\<close>: a column of \<open>n\<close> entries.\<close>

definition lmb :: "real \<Rightarrow> vec \<Rightarrow> mat \<Rightarrow> vec" where
  "lmb beta0 b x = map (\<lambda>row. ln (1 + eps + exp (beta0 + dot row b))) x"

definition logL :: "real \<Rightarrow> vec \<Rightarrow> mat \<Rightarrow> vec \<Rightarrow> real" where
  "logL beta0 b x y =
     (let l = lmb beta0 b x in sum_list (map2 (\<lambda>yi li. yi * ln li - li) y l))"

text \<open>
  \<^verbatim>\<open>np.linalg.norm(beta,2)\<close> and \<^verbatim>\<open>np.linalg.norm(beta,1)\<close> of a column of shape
  \<^verbatim>\<open>(p,1)\<close>: for a two-dimensional array numpy takes the largest singular value and the
  largest absolute column sum, which for one column are the Euclidean norm and the sum
  of the absolute values.
\<close>

definition norm_l2 :: "vec \<Rightarrow> real" where
  "norm_l2 b = sqrt (sum_list (map (\<lambda>v. v * v) b))"

definition norm_l1 :: "vec \<Rightarrow> real" where
  "norm_l1 b = sum_list (map abs b)"

definition penalty :: "real \<Rightarrow> vec \<Rightarrow> real" where
  "penalty alpha b = 0.5 * (1 - alpha) * norm_l2 b + alpha * norm_l1 b"

definition loss :: "real \<Rightarrow> vec \<Rightarrow> real \<Rightarrow> real \<Rightarrow> mat \<Rightarrow> vec \<Rightarrow> real" where
  "loss beta0 b alpha reg_lambda x y =
     (let l = logL beta0 b x y; P = penalty alpha b in - l + reg_lambda * P)"

subsection \<open>Proximal operator\<close>

text \<open>
  \<^verbatim>\<open>prox(x,l) = np.sign(x) * (np.abs(x) - l) * (np.abs(x) > l)\<close>, on one entry; the
  comparison is a boolean that multiplies as 0 or 1.
\<close>

definition prox :: "real \<Rightarrow> real \<Rightarrow> real" where
  "prox x l = sgn x * (\<bar>x\<bar> - l) * of_bool (\<bar>x\<bar> > l)"

subsection \<open>Gradients and Hessian terms\<close>

text \<open>
  \<^verbatim>\<open>grad_loss\<close>: \<^verbatim>\<open>z\<close>, \<^verbatim>\<open>q\<close>, \<^verbatim>\<open>s\<close> and \<^verbatim>\<open>y*s/q\<close> are columns of \<open>n\<close> entries; the
  result is the pair of the intercept term and the column of the \<open>p\<close> coefficient terms.
\<close>

definition grad_loss :: "real \<Rightarrow> vec \<Rightarrow> real \<Rightarrow> real \<Rightarrow> mat \<Rightarrow> vec \<Rightarrow> real \<times> vec" where
  "grad_loss beta0 b alpha reg_lambda x y =
     (let z = map (\<lambda>row. beta0 + dot row b) x;
          q = map qu z;
          s = map expit z;
          ysq = map2 (\<lambda>yi (si, qi). yi * si / qi) y (zip s q);
          grad_beta0 = sum_list s - sum_list ysq;
          grad_beta = map2 (\<lambda>d bj. d + reg_lambda * (1 - alpha) * bj)
                        (map2 (-) (vecmat s x) (vecmat ysq x)) b
      in (grad_beta0, grad_beta))"

definition hessian_loss :: "real \<Rightarrow> vec \<Rightarrow> real \<Rightarrow> real \<Rightarrow> mat \<Rightarrow> vec \<Rightarrow> real \<times> vec" where
  "hessian_loss beta0 b alpha reg_lambda x y =
     (let z = map (\<lambda>row. beta0 + dot row b) x;
          q = map qu z;
          s = map expit z;
          grad_s = map (\<lambda>si. si * (1 - si)) s;
          grad_s_by_q = map2 (\<lambda>gi (si, qi). gi / qi - si / (qi * qi)) grad_s (zip s q);
          ygq = map2 (*) y grad_s_by_q;
          xx = map (map (\<lambda>v. v * v)) x;
          hess_beta0 = sum_list grad_s - sum_list ygq;
          hess_beta = map (\<lambda>d. d + reg_lambda * (1 - alpha))
                        (map2 (-) (vecmat grad_s xx) (vecmat ygq xx))
      in (hess_beta0, hess_beta))"

text \<open>
  \<^verbatim>\<open>grad_loss_k\<close> and \<^verbatim>\<open>hess_loss_k\<close>: the terms of one coordinate from the maintained
  \<^verbatim>\<open>z\<close>. Here \<^verbatim>\<open>z\<close> is the two-dimensional array the solver holds, \<^verbatim>\<open>xk\<close> the
  one-dimensional \<^verbatim>\<open>x[:,k]\<close>, \<^verbatim>\<open>y\<close> the response column, and \<^verbatim>\<open>np.sum\<close> adds all
  entries of the broadcast products.
\<close>

definition grad_loss_k :: "mat \<Rightarrow> real \<Rightarrow> real \<Rightarrow> real \<Rightarrow> vec \<Rightarrow> vec \<Rightarrow> nat \<Rightarrow> real" where
  "grad_loss_k z beta_k alpha rl xk y k =
     (let q = map (map qu) z;
          s = map (map expit) z
      in if k = 0 then sum2 s - sum2 (mat2 (/) (bcol (*) y s) q)
         else sum2 (bc2 (*) s xk) - sum2 (bc2 (*) (mat2 (/) (bcol (*) y s) q) xk)
                + rl * (1 - alpha) * beta_k)"

definition hess_loss_k :: "mat \<Rightarrow> real \<Rightarrow> real \<Rightarrow> vec \<Rightarrow> vec \<Rightarrow> nat \<Rightarrow> real" where
  "hess_loss_k z alpha rl xk y k =
     (let q = map (map qu) z;
          s = map (map expit) z;
          grad_s = map (map (\<lambda>si. si * (1 - si))) s;
          grad_s_by_q = mat2 (-) (mat2 (/) grad_s q) (mat2 (/) s (mat2 (*) q q))
      in if k = 0 then sum2 grad_s - sum2 (bcol (*) y grad_s_by_q)
         else sum2 (bc2 (*) (bc2 (*) grad_s xk) xk)
                - sum2 (bc2 (*) (bc2 (*) (bcol (*) y grad_s_by_q) xk) xk)
                + rl * (1 - alpha))"

subsection \<open>Pathwise cyclical coordinate descent: \<^verbatim>\<open>fitmodel\<close>\<close>

text \<open>
  The variables of one grid point. The fields carry the source's names with the prefix
  \<open>s_\<close>: \<^verbatim>\<open>beta\<close>, \<^verbatim>\<open>beta_prev\<close>, \<^verbatim>\<open>g\<close>, \<^verbatim>\<open>h\<close> are columns of \<open>p+1\<close> entries,
  \<^verbatim>\<open>z\<close> and \<^verbatim>\<open>z_prev\<close> two-dimensional arrays, \<^verbatim>\<open>K\<close> the active set (a Python list),
  \<^verbatim>\<open>L\<close> and \<^verbatim>\<open>DL\<close> the lists of losses and loss differences, \<^verbatim>\<open>c\<close> the cycle counter.
\<close>

record cd_state =
  s_beta :: vec
  s_beta_prev :: vec
  s_z :: mat
  s_z_prev :: mat
  s_g :: vec
  s_h :: vec
  s_K :: "nat list"
  s_L :: "real list"
  s_DL :: "real list"
  s_c :: nat
  s_no_convergence :: bool

text \<open>
  What ends a run of the embedding: \<open>NonFinite\<close> where numpy divides by a zero entry
  (see the conventions: the program itself goes on), the others are Python exceptions.
  Subscripts computed at run time (an index \<^verbatim>\<open>k\<close> taken from \<^verbatim>\<open>K\<close>, the counter \<^verbatim>\<open>c\<close>,
  the positions \<^verbatim>\<open>-1\<close> and \<^verbatim>\<open>-2\<close> of a list) raise \<^verbatim>\<open>IndexError\<close> out of range; the
  arrays themselves have the shapes they are created with.
\<close>

datatype fault = NonFinite | NameError string | KeyError string | IndexError | TypeError

definition convergence_threshold :: real where
  "convergence_threshold = 1 / 1000"

text \<open>
  \<^verbatim>\<open>b[0] + np.dot(x, b[1:])\<close> for a column \<^verbatim>\<open>b\<close> of \<open>p+1\<close> entries: the linear
  predictor of the parameters \<^verbatim>\<open>b\<close>, an array of shape \<^verbatim>\<open>(n,1)\<close>.
\<close>

definition predictor :: "vec \<Rightarrow> mat \<Rightarrow> mat" where
  "predictor b x = map (\<lambda>row. [hd b + dot row (tl b)]) x"

text \<open>
  The body of the outer loop from \<^verbatim>\<open>no_convergence = 1\<close> to \<^verbatim>\<open>K = range(p)\<close>:
  \<^verbatim>\<open>beta_prev\<close>, \<^verbatim>\<open>z\<close>, \<^verbatim>\<open>g\<close> and \<^verbatim>\<open>h\<close> are computed from \<^verbatim>\<open>beta0_hat\<close> and
  \<^verbatim>\<open>beta_hat\<close>; \<^verbatim>\<open>z_prev\<close> has shape \<^verbatim>\<open>(n,1)\<close>.
\<close>

definition solver_init :: "nat \<Rightarrow> real \<Rightarrow> vec \<Rightarrow> real \<Rightarrow> real \<Rightarrow> mat \<Rightarrow> vec \<Rightarrow> cd_state" where
  "solver_init p beta0_hat beta_hat alpha rl x y =
     (let beta_prev = beta0_hat # beta_hat;
          z_prev = predictor beta_prev x;
          (grad_beta0, grad_beta) = grad_loss beta0_hat beta_hat alpha rl x y;
          (hess_beta0, hess_beta) = hessian_loss beta0_hat beta_hat alpha rl x y
      in \<lparr> s_beta = replicate (p + 1) 0,
           s_beta_prev = beta_prev,
           s_z = z_prev,
           s_z_prev = z_prev,
           s_g = grad_beta0 # grad_beta,
           s_h = hess_beta0 # hess_beta,
           s_K = [0..<p],
           s_L = [],
           s_DL = [],
           s_c = 0,
           s_no_convergence = True \<rparr>)"

text \<open>
  The body of \<^verbatim>\<open>for k in K\<close>: the Newton step \<^verbatim>\<open>beta_prev[k] - g[k]/h[k]\<close>, the soft
  threshold for \<^verbatim>\<open>k>0\<close>, the update \<^verbatim>\<open>z = z_prev - g[k]/h[k]*x[:,k]\<close>, the new
  \<^verbatim>\<open>g[k]\<close> and \<^verbatim>\<open>h[k]\<close>, and the housekeeping. The subscripts are checked in the
  order in which Python evaluates them.
\<close>

definition coord_update :: "real \<Rightarrow> real \<Rightarrow> mat \<Rightarrow> vec \<Rightarrow> nat \<Rightarrow> cd_state \<Rightarrow> fault + cd_state" where
  "coord_update alpha rl x y k st =
     (if \<not> (k < length (s_beta_prev st) \<and> k < length (s_g st) \<and> k < length (s_h st))
      then Inl IndexError
      else if s_h st ! k = 0 then Inl NonFinite
      else if \<not> (k < length (s_beta st) \<and> k < ncols x) then Inl IndexError
      else
        let step = s_g st ! k / s_h st ! k;
            b1 = s_beta_prev st ! k - step;
            b2 = (if k > 0 then prox b1 (rl * alpha) else b1);
            xk = column x k;
            z = bc2 (-) (s_z_prev st) (map (\<lambda>v. step * v) xk);
            gk = grad_loss_k z b2 alpha rl xk y k;
            hk = hess_loss_k z alpha rl xk y k
        in Inr (st \<lparr> s_beta := (s_beta st)[k := b2],
                     s_z := z,
                     s_g := (s_g st)[k := gk],
                     s_h := (s_h st)[k := hk],
                     s_beta_prev := (s_beta_prev st)[k := b2],
                     s_z_prev := z \<rparr>))"

text \<open>The loop \<^verbatim>\<open>for k in K\<close> itself, in the order of the list.\<close>

fun for_k :: "real \<Rightarrow> real \<Rightarrow> mat \<Rightarrow> vec \<Rightarrow> nat list \<Rightarrow> cd_state \<Rightarrow> fault + cd_state" where
  "for_k alpha rl x y [] st = Inr st"
| "for_k alpha rl x y (k # ks) st =
     (case coord_update alpha rl x y k st of
        Inl e \<Rightarrow> Inl e
      | Inr st' \<Rightarrow> for_k alpha rl x y ks st')"

text \<open>
  \<^verbatim>\<open>[i for (i, val) in enumerate(beta[1:]) if val == 0]\<close>: the positions, counted from
  0, of the zero entries of the slice.
\<close>

definition zero_positions :: "vec \<Rightarrow> nat list" where
  "zero_positions bs = filter (\<lambda>i. bs ! i = 0) [0..<length bs]"

text \<open>
  \<^verbatim>\<open>K = list(set(K) - set(...))\<close>. The elements are the members of \<^verbatim>\<open>K\<close> that are not
  listed; the order in which CPython lists the resulting set depends on its hash table,
  so it is the parameter \<open>reorder\<close>, given the old list and the kept elements.
\<close>

definition update_active :: "(nat list \<Rightarrow> nat list \<Rightarrow> nat list) \<Rightarrow> nat list \<Rightarrow> vec \<Rightarrow> nat list" where
  "update_active reorder K b =
     reorder K (filter (\<lambda>k. k \<notin> set (zero_positions (tl b))) (remdups K))"

text \<open>
  The body of \<^verbatim>\<open>while(no_convergence)\<close>: one pass over \<^verbatim>\<open>K\<close>, the loss of
  \<^verbatim>\<open>(beta[0], beta[1:])\<close> appended to \<^verbatim>\<open>L\<close> (and \<^verbatim>\<open>L[c]\<close> read for printing), the
  update of the active set, and for \<^verbatim>\<open>c > 0\<close> the convergence test on
  \<^verbatim>\<open>DL[-1]/L[-1]\<close>. A quotient by \<^verbatim>\<open>L[-1] = 0\<close> is \<^verbatim>\<open>nan\<close> or \<^verbatim>\<open>inf\<close> in numpy, for
  which the comparison is false.
\<close>

definition cycle :: "(nat list \<Rightarrow> nat list \<Rightarrow> nat list) \<Rightarrow> real \<Rightarrow> real \<Rightarrow> mat \<Rightarrow> vec \<Rightarrow> cd_state \<Rightarrow> fault + cd_state" where
  "cycle reorder alpha rl x y st =
     (case for_k alpha rl x y (s_K st) st of
        Inl e \<Rightarrow> Inl e
      | Inr st1 \<Rightarrow>
          let L = s_L st1 @ [loss (s_beta st1 ! 0) (tl (s_beta st1)) alpha rl x y] in
          if \<not> s_c st1 < length L then Inl IndexError
          else
          let K = update_active reorder (s_K st1) (s_beta st1);
              st2 = st1 \<lparr> s_K := K, s_L := L \<rparr>;
              st3 = (if s_c st2 > 0 then
                       let DL = s_DL st2 @ [L ! s_c st2 - L ! (s_c st2 - 1)] in
                       if last L \<noteq> 0 \<and> \<bar>last DL / last L\<bar> < convergence_threshold
                       then st2 \<lparr> s_DL := DL, s_no_convergence := False \<rparr>
                       else st2 \<lparr> s_DL := DL \<rparr>
                     else st2)
          in Inr (st3 \<lparr> s_c := s_c st3 + 1 \<rparr>))"

text \<open>
  \<^verbatim>\<open>while(no_convergence)\<close> has no iteration bound: a run that never converges is the
  value \<open>None\<close>.
\<close>

partial_function (option) while_cycles ::
  "(nat list \<Rightarrow> nat list \<Rightarrow> nat list) \<Rightarrow> real \<Rightarrow> real \<Rightarrow> mat \<Rightarrow> vec \<Rightarrow> cd_state \<Rightarrow> (fault + cd_state) option" where
  "while_cycles reorder alpha rl x y st =
     (if s_no_convergence st then
        (case cycle reorder alpha rl x y st of
           Inl e \<Rightarrow> Some (Inl e)
         | Inr st' \<Rightarrow> while_cycles reorder alpha rl x y st')
      else Some (Inr st))"

text \<open>
  A fit record is the dictionary \<^verbatim>\<open>{'beta0': ..., 'beta': ...}\<close>; both values are
  stored as the list of their entries (the float \<^verbatim>\<open>0.\<close> of a fresh record as one entry).
\<close>

type_synonym fit_record = "string \<rightharpoonup> real list"

definition new_record :: "nat \<Rightarrow> fit_record" where
  "new_record p = [''beta0'' \<mapsto> [0], ''beta'' \<mapsto> replicate p 0]"

text \<open>\<^verbatim>\<open>fit[-1][key] = v\<close>, on a list that has a last element.\<close>

definition set_last :: "fit_record list \<Rightarrow> string \<Rightarrow> real list \<Rightarrow> fit_record list" where
  "set_last fit key v = fit[length fit - 1 := (fit ! (length fit - 1))(key \<mapsto> v)]"

text \<open>
  The block under \<^verbatim>\<open># Warm initialize parameters\<close>: the record appended for this grid
  point receives the initial draw at index 0 and the values of \<^verbatim>\<open>fit[-2]\<close> afterwards.
\<close>

definition warm_init :: "nat \<Rightarrow> real \<Rightarrow> vec \<Rightarrow> fit_record list \<Rightarrow> fault + fit_record list" where
  "warm_init l beta0_hat beta_hat fit =
     (if fit = [] then Inl IndexError
      else if l = 0 then Inr (set_last (set_last fit ''beta0'' [beta0_hat]) ''beta'' beta_hat)
      else if length fit < 2 then Inl IndexError
      else
        (case (fit ! (length fit - 2)) ''beta0'' of
           None \<Rightarrow> Inl (KeyError ''beta0'')
         | Some b0 \<Rightarrow>
             (case (fit ! (length fit - 2)) ''beta'' of
                None \<Rightarrow> Inl (KeyError ''beta'')
              | Some b \<Rightarrow> Inr (set_last (set_last fit ''beta0'' b0) ''beta'' b))))"

text \<open>
  The body of \<^verbatim>\<open>for l,rl in enumerate(reg_lambda)\<close>: append a record, warm initialise
  it, set up the solver, run the cycles, and store \<^verbatim>\<open>beta[0]\<close> and \<^verbatim>\<open>beta[1:]\<close> in the
  record.
\<close>

definition grid_point ::
  "(nat list \<Rightarrow> nat list \<Rightarrow> nat list) \<Rightarrow> real \<Rightarrow> vec \<Rightarrow> mat \<Rightarrow> vec \<Rightarrow> real \<Rightarrow>
     fit_record list \<Rightarrow> nat \<Rightarrow> real \<Rightarrow> (fault + fit_record list) option" where
  "grid_point reorder beta0_hat beta_hat x y alpha fit l rl =
     (let p = ncols x;
          fit1 = fit @ [new_record p]
      in case warm_init l beta0_hat beta_hat fit1 of
           Inl e \<Rightarrow> Some (Inl e)
         | Inr fit2 \<Rightarrow>
             (case while_cycles reorder alpha rl x y
                     (solver_init p beta0_hat beta_hat alpha rl x y) of
                None \<Rightarrow> None
              | Some (Inl e) \<Rightarrow> Some (Inl e)
              | Some (Inr st) \<Rightarrow>
                  Some (Inr (set_last (set_last fit2 ''beta0'' [s_beta st ! 0])
                               ''beta'' (tl (s_beta st))))))"

fun path_loop ::
  "(nat list \<Rightarrow> nat list \<Rightarrow> nat list) \<Rightarrow> real \<Rightarrow> vec \<Rightarrow> mat \<Rightarrow> vec \<Rightarrow> real \<Rightarrow>
     fit_record list \<Rightarrow> nat \<Rightarrow> real list \<Rightarrow> (fault + fit_record list) option" where
  "path_loop reorder beta0_hat beta_hat x y alpha fit l [] = Some (Inr fit)"
| "path_loop reorder beta0_hat beta_hat x y alpha fit l (rl # rls) =
     (case grid_point reorder beta0_hat beta_hat x y alpha fit l rl of
        None \<Rightarrow> None
      | Some (Inl e) \<Rightarrow> Some (Inl e)
      | Some (Inr fit') \<Rightarrow> path_loop reorder beta0_hat beta_hat x y alpha fit' (Suc l) rls)"

text \<open>
  \<^verbatim>\<open>fitmodel(x, y, reg_lambda, alpha)\<close>. The generator behind \<^verbatim>\<open>np.random.normal\<close> is
  the parameter \<open>rng\<close>, the sequence of the values it hands out: the first is
  \<^verbatim>\<open>beta0_hat\<close>, the next \<open>p\<close> are \<^verbatim>\<open>beta_hat\<close>.
\<close>

definition fitmodel ::
  "(nat list \<Rightarrow> nat list \<Rightarrow> nat list) \<Rightarrow> (nat \<Rightarrow> real) \<Rightarrow> mat \<Rightarrow> vec \<Rightarrow> real list \<Rightarrow> real \<Rightarrow>
     (fault + fit_record list) option" where
  "fitmodel reorder rng x y reg_lambda alpha =
     (let p = ncols x;
          beta0_hat = rng 0;
          beta_hat = map rng [1..<p + 1]
      in path_loop reorder beta0_hat beta_hat x y alpha [] 0 reg_lambda)"

subsection \<open>Pathwise proximal batch gradient descent: \<^verbatim>\<open>fitmodel_graddesc\<close>\<close>

text \<open>
  The dictionaries \<^verbatim>\<open>reg_params\<close> and \<^verbatim>\<open>opt_params\<close> are read at fixed keys; a record
  gives every key the type of its value, a key that is absent is \<open>None\<close>. An object
  bound to a global name is such a dictionary, or something else (a module, a function).
\<close>

record reg_dict =
  reg_lambda_key :: "real list option"
  alpha_key :: "real option"

record opt_dict =
  max_iter_key :: "int option"
  learning_rate_key :: "real option"
  p1_key :: "real option"
  p2_key :: "real option"

datatype pyobj = Dict reg_dict | Other

text \<open>
  The global names of the notebook once all its cells have run: the imports of the
  first cell and the functions of the code cells.
\<close>

definition notebook_globals :: "string \<rightharpoonup> pyobj" where
  "notebook_globals =
     map_of (map (\<lambda>name. (name, Other))
       [''np'', ''expit'', ''sps'', ''plt'', ''qu'', ''lmb'', ''logL'', ''penalty'', ''loss'',
        ''grad_loss'', ''hessian_loss'', ''prox'', ''grad_loss_k'', ''hess_loss_k'',
        ''fitmodel'', ''fitmodel_graddesc''])"

record gd_state =
  gd_beta :: vec
  gd_g :: vec
  gd_L :: "real list"
  gd_DL :: "real list"
  gd_t :: nat
  gd_no_convergence :: bool

text \<open>
  The body of \<^verbatim>\<open>while(no_convergence and t < max_iter)\<close>: the batch gradient, the step
  \<^verbatim>\<open>beta + delta_beta\<close> with \<^verbatim>\<open>delta_beta = -e*g\<close>, the proximal operator on
  \<^verbatim>\<open>beta[1:]\<close>, the loss, and for \<^verbatim>\<open>t > 1\<close> the convergence test.
\<close>

definition gd_step :: "real \<Rightarrow> real \<Rightarrow> real \<Rightarrow> mat \<Rightarrow> vec \<Rightarrow> gd_state \<Rightarrow> fault + gd_state" where
  "gd_step e alpha rl x y st =
     (let (grad_beta0, grad_beta) = grad_loss (gd_beta st ! 0) (tl (gd_beta st)) alpha rl x y;
          g = grad_beta0 # grad_beta;
          t = gd_t st + 1;
          delta_beta = map (\<lambda>gi. - e * gi) g;
          beta1 = map2 (+) (gd_beta st) delta_beta;
          beta2 = hd beta1 # map (\<lambda>b. prox b (rl * alpha)) (tl beta1);
          L = gd_L st @ [loss (beta2 ! 0) (tl beta2) alpha rl x y];
          st1 = st \<lparr> gd_beta := beta2, gd_g := g, gd_L := L, gd_t := t \<rparr>
      in if t > 1 then
           if length L < 2 then Inl IndexError
           else
             let DL = gd_DL st1 @ [last L - L ! (length L - 2)] in
             if last L \<noteq> 0 \<and> \<bar>last DL / last L\<bar> < convergence_threshold
             then Inr (st1 \<lparr> gd_DL := DL, gd_no_convergence := False \<rparr>)
             else Inr (st1 \<lparr> gd_DL := DL \<rparr>)
         else Inr st1)"

function gd_while :: "int \<Rightarrow> real \<Rightarrow> real \<Rightarrow> real \<Rightarrow> mat \<Rightarrow> vec \<Rightarrow> gd_state \<Rightarrow> fault + gd_state" where
  "gd_while max_iter e alpha rl x y st =
     (if gd_no_convergence st \<and> int (gd_t st) < max_iter
      then (case gd_step e alpha rl x y st of
              Inl err \<Rightarrow> Inl err
            | Inr st' \<Rightarrow> gd_while max_iter e alpha rl x y st')
      else Inr st)"
  by pat_completeness auto
termination
proof (relation "measure (\<lambda>(max_iter, e, alpha, rl, x, y, st). nat (max_iter - int (gd_t st)))")
  show "wf (measure (\<lambda>(max_iter, e, alpha, rl, x, y, st). nat (max_iter - int (gd_t st))))"
    by simp
next
  fix max_iter :: int and e alpha rl :: real and x :: mat and y :: vec and st st' :: gd_state
  assume "gd_no_convergence st \<and> int (gd_t st) < max_iter"
    and "gd_step e alpha rl x y st = Inr st'"
  then have "int (gd_t st) < max_iter" and "gd_t st' = gd_t st + 1"
    by (auto simp: gd_step_def Let_def split: prod.splits if_splits)
  then show "((max_iter, e, alpha, rl, x, y, st'), (max_iter, e, alpha, rl, x, y, st))
      \<in> measure (\<lambda>(max_iter, e, alpha, rl, x, y, st). nat (max_iter - int (gd_t st)))"
    by simp
qed

text \<open>
  The body of the outer loop of \<^verbatim>\<open>fitmodel_graddesc\<close>; the warm initialisation is the
  same block as in \<^verbatim>\<open>fitmodel\<close>, and \<^verbatim>\<open>beta\<close> is set from \<^verbatim>\<open>beta0_hat\<close> and
  \<^verbatim>\<open>beta_hat\<close>.
\<close>

definition gd_grid_point ::
  "int \<Rightarrow> real \<Rightarrow> real \<Rightarrow> vec \<Rightarrow> mat \<Rightarrow> vec \<Rightarrow> real \<Rightarrow> fit_record list \<Rightarrow> nat \<Rightarrow> real \<Rightarrow>
     fault + fit_record list" where
  "gd_grid_point max_iter e beta0_hat beta_hat x y alpha fit l rl =
     (let p = ncols x;
          fit1 = fit @ [new_record p]
      in case warm_init l beta0_hat beta_hat fit1 of
           Inl err \<Rightarrow> Inl err
         | Inr fit2 \<Rightarrow>
             let st0 = \<lparr> gd_beta = beta0_hat # beta_hat, gd_g = replicate (p + 1) 0,
                         gd_L = [], gd_DL = [], gd_t = 0, gd_no_convergence = True \<rparr>
             in case gd_while max_iter e alpha rl x y st0 of
                  Inl err \<Rightarrow> Inl err
                | Inr st \<Rightarrow>
                    Inr (set_last (set_last fit2 ''beta0'' [gd_beta st ! 0])
                           ''beta'' (tl (gd_beta st))))"

fun gd_path_loop ::
  "int \<Rightarrow> real \<Rightarrow> real \<Rightarrow> vec \<Rightarrow> mat \<Rightarrow> vec \<Rightarrow> real \<Rightarrow> fit_record list \<Rightarrow> nat \<Rightarrow> real list \<Rightarrow>
     fault + fit_record list" where
  "gd_path_loop max_iter e beta0_hat beta_hat x y alpha fit l [] = Inr fit"
| "gd_path_loop max_iter e beta0_hat beta_hat x y alpha fit l (rl # rls) =
     (case gd_grid_point max_iter e beta0_hat beta_hat x y alpha fit l rl of
        Inl err \<Rightarrow> Inl err
      | Inr fit' \<Rightarrow> gd_path_loop max_iter e beta0_hat beta_hat x y alpha fit' (Suc l) rls)"

text \<open>
  \<^verbatim>\<open>fitmodel_graddesc(x, y, reg_params, opt_params)\<close>, called with the global names
  \<open>globals\<close>. The body reads \<^verbatim>\<open>fit_params['reg_lambda']\<close> and \<^verbatim>\<open>fit_params['alpha']\<close>;
  \<^verbatim>\<open>fit_params\<close> is not assigned in the body and is not a parameter, so Python looks it
  up among the global names (no builtin has this name) and raises \<^verbatim>\<open>NameError\<close> when
  it is not there. The argument \<^verbatim>\<open>reg_params\<close> is never read.
\<close>

definition fitmodel_graddesc ::
  "(string \<rightharpoonup> pyobj) \<Rightarrow> (nat \<Rightarrow> real) \<Rightarrow> mat \<Rightarrow> vec \<Rightarrow> reg_dict \<Rightarrow> opt_dict \<Rightarrow>
     fault + fit_record list" where
  "fitmodel_graddesc globals rng x y reg_params opt_params =
     (let p = ncols x in
      case globals ''fit_params'' of
        None \<Rightarrow> Inl (NameError ''fit_params'')
      | Some Other \<Rightarrow> Inl TypeError
      | Some (Dict fit_params) \<Rightarrow>
     (case reg_lambda_key fit_params of
        None \<Rightarrow> Inl (KeyError ''reg_lambda'')
      | Some reg_lambda \<Rightarrow>
     (case alpha_key fit_params of
        None \<Rightarrow> Inl (KeyError ''alpha'')
      | Some alpha \<Rightarrow>
     (case max_iter_key opt_params of
        None \<Rightarrow> Inl (KeyError ''max_iter'')
      | Some max_iter \<Rightarrow>
     (case learning_rate_key opt_params of
        None \<Rightarrow> Inl (KeyError ''learning_rate'')
      | Some e \<Rightarrow>
     (case p1_key opt_params of
        None \<Rightarrow> Inl (KeyError ''p1'')
      | Some p1 \<Rightarrow>
     (case p2_key opt_params of
        None \<Rightarrow> Inl (KeyError ''p2'')
      | Some p2 \<Rightarrow>
          let beta0_hat = rng 0;
              beta_hat = map rng [1..<p + 1]
          in gd_path_loop max_iter e beta0_hat beta_hat x y alpha [] 0 reg_lambda)))))))"

subsection \<open>Notions used in the statements\<close>

text \<open>
  The record \<^verbatim>\<open>fitmodel\<close> stores for a solver state (\<^verbatim>\<open>beta[0]\<close> and \<^verbatim>\<open>beta[1:]\<close>),
  the set of keys of such a record, and the run of the cycles of one grid value from the
  initial draw.
\<close>

definition stored_record :: "cd_state \<Rightarrow> fit_record" where
  "stored_record st = [''beta0'' \<mapsto> [s_beta st ! 0], ''beta'' \<mapsto> tl (s_beta st)]"

definition two_keys :: "fit_record \<Rightarrow> bool" where
  "two_keys r \<longleftrightarrow> dom r = {''beta0'', ''beta''}"

text \<open>
  The shapes a solver state has in a run of \<^verbatim>\<open>fitmodel\<close> on \<open>p\<close> predictors: columns of
  \<open>p+1\<close> entries, an active set within \<^verbatim>\<open>range(p)\<close>, and one loss per finished cycle.
\<close>

definition shaped :: "nat \<Rightarrow> cd_state \<Rightarrow> bool" where
  "shaped p st \<longleftrightarrow>
     length (s_beta st) = p + 1 \<and> length (s_beta_prev st) = p + 1 \<and>
     length (s_g st) = p + 1 \<and> length (s_h st) = p + 1 \<and>
     set (s_K st) \<subseteq> {0..<p} \<and> length (s_L st) = s_c st"

definition solve :: "(nat list \<Rightarrow> nat list \<Rightarrow> nat list) \<Rightarrow> real \<Rightarrow> vec \<Rightarrow> mat \<Rightarrow> vec \<Rightarrow> real \<Rightarrow> real \<Rightarrow> (fault + cd_state) option" where
  "solve reorder beta0_hat beta_hat x y alpha rl =
     while_cycles reorder alpha rl x y (solver_init (ncols x) beta0_hat beta_hat alpha rl x y)"


section \<open>Facts about the embedding\<close>

subsection \<open>Numerical facts\<close>

lemma qu_pos: "0 < qu z"
proof -
  have "0 < eps" by (simp add: eps_def)
  then have "1 < 1 + eps + exp z" using exp_gt_zero [of z] by linarith
  then show ?thesis unfolding qu_def by (rule ln_gt_zero)
qed

lemma softplus_nonzero: "ln (1 + eps + exp z) \<noteq> 0"
  using qu_pos [of z] by (simp add: qu_def)

lemma expit_zero: "expit 0 = 1 / 2"
  by (simp add: expit_def)

lemma expit_bounds: "0 < expit z" "expit z < 1"
proof -
  have p: "0 < exp (- z)" by simp
  then show "0 < expit z" by (simp add: expit_def add_pos_pos)
  from p have "0 < 1 + exp (- z)" by (simp add: add_pos_pos)
  then show "expit z < 1"
    unfolding expit_def by (subst divide_less_eq_1_pos) simp_all
qed

lemma expit_neq [simp]: "expit z \<noteq> 0" "expit z \<noteq> 1"
  using expit_bounds [of z] by simp_all

lemma newton_intercept_step: "expit z / (expit z * (1 - expit z)) = 1 + exp z"
proof -
  have e: "exp (- z) = 1 / exp z" by (simp add: exp_minus inverse_eq_divide)
  have p: "0 < exp z" by simp
  then have q: "0 < 1 + exp z" by (simp add: add_pos_pos)
  have s: "expit z = exp z / (1 + exp z)"
    unfolding expit_def e using p q by (simp add: field_simps)
  have c: "1 - expit z = 1 / (1 + exp z)"
    unfolding s using q by (simp add: field_simps)
  have "expit z \<noteq> 0" using expit_bounds(1) [of z] by simp
  then have "expit z / (expit z * (1 - expit z)) = 1 / (1 - expit z)" by simp
  also have "\<dots> = 1 + exp z" unfolding c by simp
  finally show ?thesis .
qed

lemma one_minus_expit: "1 - expit z = 1 / (1 + exp z)"
proof -
  have e: "exp (- z) = 1 / exp z" by (simp add: exp_minus inverse_eq_divide)
  have p: "0 < exp z" by simp
  then have q: "0 < 1 + exp z" by (simp add: add_pos_pos)
  have s: "expit z = exp z / (1 + exp z)"
    unfolding expit_def e using p q by (simp add: field_simps)
  show ?thesis unfolding s using q by (simp add: field_simps)
qed

lemma hessian_intercept_small: "expit z * (1 - expit z) < 1 / exp z"
proof -
  have p: "0 < exp z" by simp
  then have "exp z < 1 + exp z" by simp
  with p have a: "1 / (1 + exp z) < 1 / exp z" by (simp add: frac_less2)
  have b: "0 < 1 / (1 + exp z)" using p by (simp add: add_pos_pos)
  have "expit z * (1 / (1 + exp z)) < 1 * (1 / (1 + exp z))"
    using expit_bounds(2) [of z] b by (rule mult_strict_right_mono)
  with a show ?thesis unfolding one_minus_expit by simp
qed

lemma exp_30_bound: "(10::real) ^ 11 < exp 30"
proof -
  have "(5 / 2 :: real) \<le> exp 1"
    using exp_lower_Taylor_quadratic [of "1::real"] by simp
  then have "(5 / 2 :: real) ^ 30 \<le> exp 1 ^ 30"
    by (rule power_mono) simp
  also have "exp (1::real) ^ 30 = exp 30"
    using exp_of_nat_mult [of 30 "1::real"] by simp
  finally have "(5 / 2 :: real) ^ 30 \<le> exp 30" .
  moreover have "(10::real) ^ 11 < (5 / 2) ^ 30" by (simp add: power_divide)
  ultimately show ?thesis by linarith
qed

subsection \<open>Induction over the cycles\<close>

lemma while_cycles_induct [consumes 1, case_names stop fault step]:
  assumes run: "while_cycles reorder alpha rl x y st = Some res"
    and stop: "\<And>st. \<not> s_no_convergence st \<Longrightarrow> P st (Inr st)"
    and fault: "\<And>st e. s_no_convergence st \<Longrightarrow> cycle reorder alpha rl x y st = Inl e \<Longrightarrow> P st (Inl e)"
    and step: "\<And>st st' res. s_no_convergence st \<Longrightarrow> cycle reorder alpha rl x y st = Inr st'
                 \<Longrightarrow> while_cycles reorder alpha rl x y st' = Some res \<Longrightarrow> P st' res \<Longrightarrow> P st res"
  shows "P st res"
proof -
  define Q where "Q = (\<lambda>r a l xx yy s rs.
      r = reorder \<and> a = alpha \<and> l = rl \<and> xx = x \<and> yy = y
        \<longrightarrow> while_cycles reorder alpha rl x y s = Some rs \<and> P s rs)"
  have "Q reorder alpha rl x y st res"
  proof (rule while_cycles.raw_induct [where P = Q and xa = "(((((reorder, alpha), rl), x), y), st)"
        and ya = res, unfolded prod.case])
    show "while_cycles reorder alpha rl x y st = Some res" by fact
  next
    fix f r a l xx yy s rs
    assume IH: "\<And>r a l xx yy s rs. f r a l xx yy s = Some rs \<Longrightarrow> Q r a l xx yy s rs"
      and body: "(if s_no_convergence s
          then case cycle r a l xx yy s of Inl e \<Rightarrow> Some (Inl e)
               | Inr st' \<Rightarrow> f r a l xx yy st'
          else Some (Inr s)) = Some rs"
    show "Q r a l xx yy s rs"
      unfolding Q_def
    proof (intro impI, elim conjE)
      assume eqs: "r = reorder" "a = alpha" "l = rl" "xx = x" "yy = y"
      show "while_cycles reorder alpha rl x y s = Some rs \<and> P s rs"
      proof (cases "s_no_convergence s")
        case False
        with body have "rs = Inr s" by simp
        with False show ?thesis
          by (simp add: stop while_cycles.simps [of reorder alpha rl x y s])
      next
        case True
        show ?thesis
        proof (cases "cycle reorder alpha rl x y s")
          case (Inl e)
          with True body eqs have "rs = Inl e" by simp
          with True Inl show ?thesis
            by (simp add: fault while_cycles.simps [of reorder alpha rl x y s])
        next
          case (Inr s')
          with True body eqs have "f reorder alpha rl x y s' = Some rs" by simp
          from IH [OF this] have w: "while_cycles reorder alpha rl x y s' = Some rs" and p: "P s' rs"
            by (simp_all add: Q_def)
          from True Inr w have "while_cycles reorder alpha rl x y s = Some rs"
            by (simp add: while_cycles.simps [of reorder alpha rl x y s])
          with step [OF True Inr w p] show ?thesis by simp
        qed
      qed
    qed
  qed
  then show ?thesis by (simp add: Q_def)
qed

lemma length_grad_loss:
  "length (snd (grad_loss beta0 b alpha rl x y)) = min (ncols x) (length b)"
  by (simp add: grad_loss_def Let_def vecmat_def)

lemma length_hessian_loss: "length (snd (hessian_loss beta0 b alpha rl x y)) = ncols x"
  by (simp add: hessian_loss_def Let_def vecmat_def ncols_def split: list.splits)

lemma solver_init_shaped:
  assumes "length beta_hat = p" and "ncols x = p"
  shows "shaped p (solver_init p beta0_hat beta_hat alpha rl x y)"
  using assms length_grad_loss [of beta0_hat beta_hat alpha rl x y]
    length_hessian_loss [of beta0_hat beta_hat alpha rl x y]
  by (simp add: shaped_def solver_init_def Let_def split_def)

lemma coord_update_shaped:
  assumes "shaped p st" and "coord_update alpha rl x y k st = Inr st'"
  shows "shaped p st'"
  using assms by (auto simp: shaped_def coord_update_def Let_def split: if_splits)

lemma coord_update_fault:
  assumes "shaped p st" and "ncols x = p" and "k < p"
    and "coord_update alpha rl x y k st = Inl e"
  shows "e = NonFinite"
  using assms by (auto simp: shaped_def coord_update_def Let_def split: if_splits)

lemma for_k_shaped:
  assumes "shaped p st" and "for_k alpha rl x y ks st = Inr st'"
  shows "shaped p st'"
  using assms
proof (induction ks arbitrary: st)
  case Nil
  then show ?case by simp
next
  case (Cons k ks)
  from Cons.prems(2) obtain st1 where 1: "coord_update alpha rl x y k st = Inr st1"
      and 2: "for_k alpha rl x y ks st1 = Inr st'"
    by (auto split: sum.splits)
  from Cons.IH [OF coord_update_shaped [OF Cons.prems(1) 1] 2] show ?case .
qed

lemma for_k_fault:
  assumes "shaped p st" and "ncols x = p" and "set ks \<subseteq> {0..<p}"
    and "for_k alpha rl x y ks st = Inl e"
  shows "e = NonFinite"
  using assms
proof (induction ks arbitrary: st)
  case Nil
  then show ?case by simp
next
  case (Cons k ks)
  from Cons.prems(3) have k: "k < p" and ks: "set ks \<subseteq> {0..<p}" by auto
  show ?case
  proof (cases "coord_update alpha rl x y k st")
    case (Inl e')
    with Cons.prems(4) have "e' = e" by simp
    with Inl coord_update_fault [OF Cons.prems(1,2) k] show ?thesis by simp
  next
    case (Inr st1)
    with Cons.prems(4) have "for_k alpha rl x y ks st1 = Inl e" by simp
    from Cons.IH [OF coord_update_shaped [OF Cons.prems(1) Inr] Cons.prems(2) ks this]
    show ?thesis .
  qed
qed

lemma set_update_active:
  assumes "\<And>K kept. set (reorder K kept) = set kept"
  shows "set (update_active reorder K b) = set K - set (zero_positions (tl b))"
  by (auto simp: update_active_def assms)

lemma cycle_shaped:
  assumes "\<And>K kept. set (reorder K kept) = set kept"
    and "shaped p st" and "cycle reorder alpha rl x y st = Inr st'"
  shows "shaped p st'"
proof -
  from assms(3) obtain st1 where 1: "for_k alpha rl x y (s_K st) st = Inr st1"
    by (auto simp: cycle_def split: sum.splits)
  note sh = for_k_shaped [OF assms(2) 1]
  have K: "set (update_active reorder (s_K st1) (s_beta st1)) \<subseteq> {0..<p}"
    using sh set_update_active [of reorder, OF assms(1)] by (auto simp: shaped_def)
  from assms(3) 1 have
    "length (s_beta st') = length (s_beta st1) \<and> length (s_beta_prev st') = length (s_beta_prev st1)
     \<and> length (s_g st') = length (s_g st1) \<and> length (s_h st') = length (s_h st1)
     \<and> s_K st' = update_active reorder (s_K st1) (s_beta st1)
     \<and> length (s_L st') = length (s_L st1) + 1 \<and> s_c st' = s_c st1 + 1"
    by (auto simp: cycle_def Let_def split: if_splits)
  with sh K show ?thesis by (simp add: shaped_def)
qed

lemma cycle_fault:
  assumes "shaped p st" and "ncols x = p"
    and "cycle reorder alpha rl x y st = Inl e"
  shows "e = NonFinite"
proof (cases "for_k alpha rl x y (s_K st) st")
  case (Inl e')
  with assms(3) have "e' = e" by (simp add: cycle_def)
  moreover from assms(1) have "set (s_K st) \<subseteq> {0..<p}" by (simp add: shaped_def)
  ultimately show ?thesis using for_k_fault [OF assms(1,2) _ Inl] by simp
next
  case (Inr st1)
  from for_k_shaped [OF assms(1) Inr] have "length (s_L st1) = s_c st1"
    by (simp add: shaped_def)
  with Inr assms(3) show ?thesis
    by (simp add: cycle_def Let_def split: if_splits)
qed

lemma while_cycles_fault:
  assumes "\<And>K kept. set (reorder K kept) = set kept" and "ncols x = p"
    and "while_cycles reorder alpha rl x y st = Some res"
  shows "shaped p st \<longrightarrow> (\<forall>e. res = Inl e \<longrightarrow> e = NonFinite)"
  using assms(3)
proof (induction rule: while_cycles_induct)
  case (stop st)
  then show ?case by simp
next
  case (fault st e)
  then show ?case using cycle_fault [OF _ assms(2)] by blast
next
  case (step st st' res)
  then show ?case using cycle_shaped [of reorder, OF assms(1)] by blast
qed

subsection \<open>The path loop\<close>

lemma set_last_snoc: "set_last (fit @ [r]) key v = fit @ [r(key \<mapsto> v)]"
  by (simp add: set_last_def)

lemma two_keys_stored_record: "two_keys (stored_record st)"
  unfolding two_keys_def stored_record_def by (simp add: insert_commute)

lemma two_keys_lookup:
  assumes "two_keys r"
  obtains u v where "r ''beta0'' = Some u" and "r ''beta'' = Some v"
proof -
  have "''beta0'' \<in> dom r" and "''beta'' \<in> dom r"
    using assms by (simp_all add: two_keys_def)
  then show ?thesis using that by (auto simp: dom_def)
qed

lemma warm_init_snoc:
  assumes "length fit = l" and "list_all two_keys fit"
  shows "\<exists>u v. warm_init l beta0_hat beta_hat (fit @ [r]) = Inr (fit @ [r(''beta0'' \<mapsto> u, ''beta'' \<mapsto> v)])"
proof (cases "l = 0")
  case True
  then have "warm_init l beta0_hat beta_hat (fit @ [r])
      = Inr (fit @ [r(''beta0'' \<mapsto> [beta0_hat], ''beta'' \<mapsto> beta_hat)])"
    unfolding warm_init_def
    by (simp only: set_last_snoc simp_thms if_True if_False append_is_Nil_conv list.distinct)
  then show ?thesis by (intro exI)
next
  case False
  with assms(1) have ne: "fit \<noteq> []" by auto
  define r' where "r' = fit ! (length fit - 1)"
  have "r' \<in> set fit" using ne by (simp add: r'_def)
  with assms(2) have "two_keys r'" by (simp add: list_all_iff)
  then obtain u v where u: "r' ''beta0'' = Some u" and v: "r' ''beta'' = Some v"
    by (rule two_keys_lookup)
  have idx: "(fit @ [r]) ! (length (fit @ [r]) - 2) = r'"
    using ne by (simp add: r'_def nth_append)
  have len: "length (fit @ [r]) < 2 \<longleftrightarrow> False" using ne by (cases fit) auto
  have "warm_init l beta0_hat beta_hat (fit @ [r]) = Inr (fit @ [r(''beta0'' \<mapsto> u, ''beta'' \<mapsto> v)])"
    unfolding warm_init_def
    by (simp only: False idx len u v if_False option.case set_last_snoc simp_thms
        append_is_Nil_conv list.distinct)
  then show ?thesis by (intro exI)
qed

lemma record_overwrite:
  "(new_record p)(''beta0'' \<mapsto> u, ''beta'' \<mapsto> v, ''beta0'' \<mapsto> a, ''beta'' \<mapsto> b)
     = [''beta0'' \<mapsto> a, ''beta'' \<mapsto> b]"
  by (simp add: fun_eq_iff new_record_def)

lemma grid_point_char:
  assumes "length fit = l" and "list_all two_keys fit"
  shows "grid_point reorder beta0_hat beta_hat x y alpha fit l rl =
     (case solve reorder beta0_hat beta_hat x y alpha rl of
        None \<Rightarrow> None
      | Some (Inl e) \<Rightarrow> Some (Inl e)
      | Some (Inr st) \<Rightarrow> Some (Inr (fit @ [stored_record st])))"
proof -
  obtain u v where w: "warm_init l beta0_hat beta_hat (fit @ [new_record (ncols x)])
      = Inr (fit @ [(new_record (ncols x))(''beta0'' \<mapsto> u, ''beta'' \<mapsto> v)])"
    using warm_init_snoc [OF assms] by blast
  show ?thesis
  proof (cases "solve reorder beta0_hat beta_hat x y alpha rl")
    case None
    then show ?thesis unfolding grid_point_def Let_def solve_def
      by (simp only: w sum.case option.case)
  next
    case (Some res)
    show ?thesis
    proof (cases res)
      case (Inl e)
      with Some show ?thesis unfolding grid_point_def Let_def solve_def
        by (simp only: w sum.case option.case)
    next
      case (Inr st)
      with Some show ?thesis unfolding grid_point_def Let_def stored_record_def solve_def
        by (simp only: w sum.case option.case set_last_snoc record_overwrite)
    qed
  qed
qed

lemma path_loop_char:
  assumes "length fit = l" and "list_all two_keys fit"
    and "path_loop reorder beta0_hat beta_hat x y alpha fit l rls = Some (Inr fit')"
  shows "\<exists>sts. length sts = length rls \<and> fit' = fit @ map stored_record sts
          \<and> (\<forall>i<length rls. solve reorder beta0_hat beta_hat x y alpha (rls ! i) = Some (Inr (sts ! i)))"
  using assms
proof (induction rls arbitrary: fit l)
  case Nil
  then show ?case by simp
next
  case (Cons rl rls)
  note g = grid_point_char [OF Cons.prems(1,2), of reorder beta0_hat beta_hat x y alpha rl]
  obtain st where
      s: "solve reorder beta0_hat beta_hat x y alpha rl = Some (Inr st)"
    and p: "path_loop reorder beta0_hat beta_hat x y alpha (fit @ [stored_record st]) (Suc l) rls = Some (Inr fit')"
  proof (cases "solve reorder beta0_hat beta_hat x y alpha rl")
    case None
    with Cons.prems(3) show ?thesis by (simp add: g)
  next
    case (Some r)
    show ?thesis
    proof (cases r)
      case (Inl e')
      with Some Cons.prems(3) show ?thesis by (simp add: g)
    next
      case (Inr st)
      with Some Cons.prems(3) that show ?thesis by (simp add: g)
    qed
  qed
  have "length (fit @ [stored_record st]) = Suc l" using Cons.prems(1) by simp
  moreover have "list_all two_keys (fit @ [stored_record st])"
    using Cons.prems(2) by (simp add: two_keys_stored_record)
  ultimately obtain sts where sts: "length sts = length rls"
      "fit' = (fit @ [stored_record st]) @ map stored_record sts"
      "\<forall>i<length rls. solve reorder beta0_hat beta_hat x y alpha (rls ! i) = Some (Inr (sts ! i))"
    using Cons.IH [OF _ _ p] by blast
  show ?case
  proof (intro exI [of _ "st # sts"] conjI allI impI)
    show "length (st # sts) = length (rl # rls)" using sts(1) by simp
    show "fit' = fit @ map stored_record (st # sts)" using sts(2) by simp
    show "solve reorder beta0_hat beta_hat x y alpha ((rl # rls) ! i) = Some (Inr ((st # sts) ! i))"
      if "i < length (rl # rls)" for i
      using that s sts(3) by (cases i) auto
  qed
qed

lemma path_loop_fault:
  assumes "length fit = l" and "list_all two_keys fit"
    and "path_loop reorder beta0_hat beta_hat x y alpha fit l rls = Some (Inl e)"
  shows "\<exists>i<length rls. solve reorder beta0_hat beta_hat x y alpha (rls ! i) = Some (Inl e)"
  using assms
proof (induction rls arbitrary: fit l)
  case Nil
  then show ?case by simp
next
  case (Cons rl rls)
  note g = grid_point_char [OF Cons.prems(1,2), of reorder beta0_hat beta_hat x y alpha rl]
  show ?case
  proof (cases "solve reorder beta0_hat beta_hat x y alpha rl")
    case None
    with Cons.prems(3) show ?thesis by (simp add: g)
  next
    case (Some r)
    show ?thesis
    proof (cases r)
      case (Inl e')
      with Some Cons.prems(3) have "e' = e" by (simp add: g)
      with Some Inl show ?thesis by auto
    next
      case (Inr st)
      with Some Cons.prems(3) have
        p: "path_loop reorder beta0_hat beta_hat x y alpha (fit @ [stored_record st]) (Suc l) rls = Some (Inl e)"
        by (simp add: g)
      have "length (fit @ [stored_record st]) = Suc l" using Cons.prems(1) by simp
      moreover have "list_all two_keys (fit @ [stored_record st])"
        using Cons.prems(2) by (simp add: two_keys_stored_record)
      ultimately obtain i where "i < length rls"
          "solve reorder beta0_hat beta_hat x y alpha (rls ! i) = Some (Inl e)"
        using Cons.IH [OF _ _ p] by blast
      then show ?thesis by (intro exI [of _ "Suc i"]) simp
    qed
  qed
qed


subsection \<open>The active set and the coordinate updates\<close>

lemma coord_update_frame:
  assumes "coord_update alpha rl x y k st = Inr st'"
  shows "s_K st' = s_K st" and "length (s_beta st') = length (s_beta st)"
    and "length (s_beta_prev st') = length (s_beta_prev st)"
  using assms by (auto simp: coord_update_def Let_def split: if_splits)

lemma coord_update_same:
  assumes "coord_update alpha rl x y k st = Inr st'"
  shows "\<exists>v. s_beta st' = (s_beta st)[k := v] \<and> s_beta_prev st' = (s_beta_prev st)[k := v]"
  using assms by (auto simp: coord_update_def Let_def split: if_splits)

lemma coord_update_visit:
  assumes "coord_update alpha rl x y k st = Inr st'"
    and "j < length (s_beta st)" and "j < length (s_beta_prev st)"
    and "j = k \<or> s_beta st ! j = s_beta_prev st ! j"
  shows "s_beta st' ! j = s_beta_prev st' ! j"
proof -
  from coord_update_same [OF assms(1)] obtain v where
    "s_beta st' = (s_beta st)[k := v]" and "s_beta_prev st' = (s_beta_prev st)[k := v]"
    by blast
  with assms(2-4) show ?thesis by (cases "j = k") auto
qed

lemma for_k_frame:
  assumes "for_k alpha rl x y ks st = Inr st'"
  shows "s_K st' = s_K st \<and> length (s_beta st') = length (s_beta st)
       \<and> length (s_beta_prev st') = length (s_beta_prev st)"
  using assms
proof (induction ks arbitrary: st)
  case Nil
  then show ?case by simp
next
  case (Cons k ks)
  then obtain st1 where 1: "coord_update alpha rl x y k st = Inr st1"
      and 2: "for_k alpha rl x y ks st1 = Inr st'"
    by (auto split: sum.splits)
  from Cons.IH [OF 2] coord_update_frame(1-3) [OF 1] show ?case by simp
qed

lemma for_k_visit:
  assumes "for_k alpha rl x y ks st = Inr st'"
    and "j < length (s_beta st)" and "j < length (s_beta_prev st)"
    and "j \<in> set ks \<or> s_beta st ! j = s_beta_prev st ! j"
  shows "s_beta st' ! j = s_beta_prev st' ! j"
  using assms
proof (induction ks arbitrary: st)
  case Nil
  then show ?case by simp
next
  case (Cons k ks)
  from Cons.prems(1) obtain st1 where 1: "coord_update alpha rl x y k st = Inr st1"
      and 2: "for_k alpha rl x y ks st1 = Inr st'"
    by (auto split: sum.splits)
  note f = coord_update_frame(2,3) [OF 1]
  show ?case
  proof (cases "j \<in> set ks")
    case True
    with Cons.IH [OF 2] Cons.prems(2,3) f show ?thesis by simp
  next
    case False
    with Cons.prems(4) have "j = k \<or> s_beta st ! j = s_beta_prev st ! j" by auto
    from coord_update_visit [OF 1 Cons.prems(2,3) this]
    have "s_beta st1 ! j = s_beta_prev st1 ! j" .
    with Cons.IH [OF 2] Cons.prems(2,3) f show ?thesis by simp
  qed
qed

lemma cycle_active:
  assumes "cycle reorder alpha rl x y st = Inr st'"
  shows "\<exists>b. s_K st' = update_active reorder (s_K st) b"
proof -
  from assms obtain st1 where 1: "for_k alpha rl x y (s_K st) st = Inr st1"
    by (auto simp: cycle_def split: sum.splits)
  with assms have "s_K st' = update_active reorder (s_K st1) (s_beta st1)"
    by (auto simp: cycle_def Let_def split: if_splits)
  with for_k_frame [OF 1] show ?thesis by auto
qed

lemma cycle_shrinks:
  assumes "\<And>K kept. set (reorder K kept) = set kept"
    and "cycle reorder alpha rl x y st = Inr st'"
  shows "set (s_K st') \<subseteq> set (s_K st)"
  using cycle_active [OF assms(2)] set_update_active [of reorder, OF assms(1)] by auto

lemma while_cycles_shrinks:
  assumes "\<And>K kept. set (reorder K kept) = set kept"
    and "while_cycles reorder alpha rl x y st = Some res"
  shows "\<forall>st'. res = Inr st' \<longrightarrow> set (s_K st') \<subseteq> set (s_K st)"
  using assms(2)
proof (induction rule: while_cycles_induct)
  case (stop st)
  then show ?case by simp
next
  case (fault st e)
  then show ?case by simp
next
  case (step st st1 res)
  from cycle_shrinks [of reorder, OF assms(1) step(2)] step(4) show ?case by blast
qed


lemma coord_update_total:
  assumes "shaped p st" and "ncols x = p" and "k < p" and "s_h st ! k \<noteq> 0"
  shows "\<exists>st'. coord_update alpha rl x y k st = Inr st'"
  using assms by (simp add: coord_update_def shaped_def Let_def)

lemma coord_update_other:
  assumes "coord_update alpha rl x y k st = Inr st'" and "j \<noteq> k"
  shows "s_h st' ! j = s_h st ! j"
  using assms by (auto simp: coord_update_def Let_def split: if_splits)

lemma coord_update_value:
  assumes "shaped p st" and "ncols x = p" and "k < p" and "s_h st ! k \<noteq> 0"
  shows "\<exists>st'. coord_update alpha rl x y k st = Inr st'
           \<and> s_beta st' ! k =
               (if k > 0 then prox (s_beta_prev st ! k - s_g st ! k / s_h st ! k) (rl * alpha)
                else s_beta_prev st ! k - s_g st ! k / s_h st ! k)"
  using assms by (simp add: shaped_def coord_update_def Let_def)

subsection \<open>Runs of \<^verbatim>\<open>fitmodel\<close>\<close>

text \<open>
  First run: one sample and one predictor, \<^verbatim>\<open>x = [[2]]\<close>, \<^verbatim>\<open>y = [[0]]\<close>, for any draws
  \<open>b0\<close>, \<open>b1\<close> of the generator and any \<open>alpha\<close> and grid value. The first cycle visits
  \<open>k = 0\<close> only, the active set is empty afterwards, and the second cycle converges.
\<close>

lemmas eval_defs = solver_init_def predictor_def grad_loss_def hessian_loss_def Let_def dot_def
  vecmat_def ncols_def coord_update_def column_def bc2_def cycle_def update_active_def
  zero_positions_def loss_def logL_def lmb_def penalty_def norm_l2_def norm_l1_def
  convergence_threshold_def softplus_nonzero

lemma example_init:
  "solver_init 1 b0 [b1] alpha rl [[2]] [0] =
     \<lparr>s_beta = [0, 0], s_beta_prev = [b0, b1], s_z = [[b0 + 2 * b1]],
      s_z_prev = [[b0 + 2 * b1]],
      s_g = [expit (b0 + 2 * b1), expit (b0 + 2 * b1) * 2 + rl * (1 - alpha) * b1],
      s_h = [expit (b0 + 2 * b1) * (1 - expit (b0 + 2 * b1)),
             expit (b0 + 2 * b1) * (1 - expit (b0 + 2 * b1)) * 4 + rl * (1 - alpha)],
      s_K = [0], s_L = [], s_DL = [], s_c = 0, s_no_convergence = True\<rparr>"
  by (simp add: eval_defs)


lemma example_update:
  "coord_update alpha rl [[2]] [0] 0 (solver_init 1 b0 [b1] alpha rl [[2]] [0]) =
     Inr \<lparr>s_beta = [b0 - (1 + exp (b0 + 2 * b1)), 0],
          s_beta_prev = [b0 - (1 + exp (b0 + 2 * b1)), b1],
          s_z = [[b0 + 2 * b1 - (2 + exp (b0 + 2 * b1) * 2)]],
          s_z_prev = [[b0 + 2 * b1 - (2 + exp (b0 + 2 * b1) * 2)]],
          s_g = [grad_loss_k [[b0 + 2 * b1 - (2 + exp (b0 + 2 * b1) * 2)]]
                   (b0 - (1 + exp (b0 + 2 * b1))) alpha rl [2] [0] 0,
                 expit (b0 + 2 * b1) * 2 + rl * (1 - alpha) * b1],
          s_h = [hess_loss_k [[b0 + 2 * b1 - (2 + exp (b0 + 2 * b1) * 2)]] alpha rl [2] [0] 0,
                 expit (b0 + 2 * b1) * (1 - expit (b0 + 2 * b1)) * 4 + rl * (1 - alpha)],
          s_K = [0], s_L = [], s_DL = [], s_c = 0, s_no_convergence = True\<rparr>"
  unfolding example_init
  by (simp add: coord_update_def Let_def ncols_def column_def bc2_def newton_intercept_step)


lemma example_cycle1:
  assumes "reorder [0] [] = []"
  shows "\<exists>st1. cycle reorder alpha rl [[2]] [0] (solver_init 1 b0 [b1] alpha rl [[2]] [0]) = Inr st1
     \<and> s_beta st1 = [b0 - (1 + exp (b0 + 2 * b1)), 0]
     \<and> s_K st1 = []
     \<and> s_L st1 = [ln (1 + eps + exp (b0 - (1 + exp (b0 + 2 * b1))))]
     \<and> s_DL st1 = [] \<and> s_c st1 = 1 \<and> s_no_convergence st1"
  unfolding cycle_def example_init cd_state.simps for_k.simps
  unfolding example_update [unfolded example_init]
  by (simp add: Let_def update_active_def zero_positions_def loss_def logL_def lmb_def
      penalty_def norm_l2_def norm_l1_def dot_def assms)

text \<open>A cycle over an empty active set after the first one repeats the last loss.\<close>

lemma cycle_idle:
  assumes "s_K st = []" and "reorder [] [] = []" and "s_c st = 1" and "s_L st = [v]"
    and "s_DL st = []" and "s_no_convergence st"
    and "loss (s_beta st ! 0) (tl (s_beta st)) alpha rl x y = v" and "v \<noteq> 0"
  shows "cycle reorder alpha rl x y st =
           Inr (st \<lparr> s_K := [], s_L := [v, v], s_DL := [0], s_c := 2, s_no_convergence := False \<rparr>)"
  using assms
  by (simp add: cycle_def Let_def update_active_def convergence_threshold_def)


lemma reorder_nil:
  assumes "\<And>K kept. set (reorder K kept) = set kept"
  shows "reorder K [] = []"
  using assms [of K "[]"] by simp

lemma example_run:
  assumes "\<And>K kept. set (reorder K kept) = set kept"
  shows "\<exists>st. solve reorder b0 [b1] [[2]] [0] alpha rl = Some (Inr st)
     \<and> s_beta st = [b0 - (1 + exp (b0 + 2 * b1)), 0]
     \<and> s_K st = []
     \<and> s_L st = [ln (1 + eps + exp (b0 - (1 + exp (b0 + 2 * b1)))),
                 ln (1 + eps + exp (b0 - (1 + exp (b0 + 2 * b1))))]"
proof -
  let ?st0 = "solver_init 1 b0 [b1] alpha rl [[2]] [0]"
  let ?v = "ln (1 + eps + exp (b0 - (1 + exp (b0 + 2 * b1))))"
  note nil = reorder_nil [of reorder, OF assms]
  from example_cycle1 [of reorder, OF nil] obtain st1 where
    c1: "cycle reorder alpha rl [[2]] [0] ?st0 = Inr st1"
    and b: "s_beta st1 = [b0 - (1 + exp (b0 + 2 * b1)), 0]"
    and k: "s_K st1 = []" and l: "s_L st1 = [?v]" and d: "s_DL st1 = []"
    and c: "s_c st1 = 1" and n: "s_no_convergence st1"
    by blast
  have v: "loss (s_beta st1 ! 0) (tl (s_beta st1)) alpha rl [[2]] [0] = ?v"
    unfolding b
    by (simp add: loss_def logL_def lmb_def penalty_def norm_l2_def norm_l1_def dot_def)
  let ?st2 = "st1 \<lparr> s_K := [], s_L := [?v, ?v], s_DL := [0], s_c := 2, s_no_convergence := False \<rparr>"
  have c2: "cycle reorder alpha rl [[2]] [0] st1 = Inr ?st2"
    by (rule cycle_idle [of st1 reorder, OF k nil [of "[]"] c l d n v softplus_nonzero])
  have p: "ncols [[2]] = 1" by (simp add: ncols_def)
  have n0: "s_no_convergence ?st0" unfolding example_init by simp
  have n2: "\<not> s_no_convergence ?st2" by simp
  have "solve reorder b0 [b1] [[2]] [0] alpha rl = Some (Inr ?st2)"
    unfolding solve_def p
    apply (subst while_cycles.simps)
    apply (simp only: n0 if_True c1 sum.case)
    apply (subst while_cycles.simps)
    apply (simp only: n if_True c2 sum.case)
    apply (subst while_cycles.simps)
    apply (simp only: n2 if_False)
    done
  moreover have "s_beta ?st2 = [b0 - (1 + exp (b0 + 2 * b1)), 0]" by (simp add: b)
  moreover have "s_K ?st2 = []" and "s_L ?st2 = [?v, ?v]" by simp_all
  ultimately show ?thesis by blast
qed

lemma example_grid_point:
  assumes "\<And>K kept. set (reorder K kept) = set kept"
    and "length fit = l" and "list_all two_keys fit"
  shows "grid_point reorder b0 [b1] [[2]] [0] alpha fit l rl
      = Some (Inr (fit @ [[''beta0'' \<mapsto> [b0 - (1 + exp (b0 + 2 * b1))], ''beta'' \<mapsto> [0]]]))"
proof -
  from example_run [of reorder, OF assms(1)] obtain st where
    "solve reorder b0 [b1] [[2]] [0] alpha rl = Some (Inr st)"
    and "s_beta st = [b0 - (1 + exp (b0 + 2 * b1)), 0]"
    by blast
  then show ?thesis
    by (simp add: grid_point_char [OF assms(2,3)] stored_record_def)
qed

lemma example_draws: "map rng [1..<ncols [[2]] + 1] = [rng 1]"
  by (simp add: ncols_def)

lemma example_fit:
  assumes "\<And>K kept. set (reorder K kept) = set kept"
  shows "fitmodel reorder rng [[2]] [0] (rl # rls) alpha =
     path_loop reorder (rng 0) [rng 1] [[2]] [0] alpha
       [[''beta0'' \<mapsto> [rng 0 - (1 + exp (rng 0 + 2 * rng 1))], ''beta'' \<mapsto> [0]]] 1 rls"
  unfolding fitmodel_def Let_def example_draws path_loop.simps
  by (simp add: example_grid_point [of reorder, OF assms])

text \<open>
  Second run: \<^verbatim>\<open>x = [[0, 2]]\<close>, \<^verbatim>\<open>y = [[0]]\<close>, \<^verbatim>\<open>alpha = 1\<close>, for any draws and any
  grid value. The gradient and Hessian entries of index 1 are 0 at the start, and they
  are still 0 after the update of index 0, when the update of index 1 is due.
\<close>

lemma example2_init:
  "s_h (solver_init 2 b0 [b1, b2] 1 rl [[0, 2]] [0]) =
     [expit (b0 + 2 * b2) * (1 - expit (b0 + 2 * b2)), 0,
      expit (b0 + 2 * b2) * (1 - expit (b0 + 2 * b2)) * 4]
   \<and> s_g (solver_init 2 b0 [b1, b2] 1 rl [[0, 2]] [0]) =
     [expit (b0 + 2 * b2), 0, expit (b0 + 2 * b2) * 2]
   \<and> s_beta_prev (solver_init 2 b0 [b1, b2] 1 rl [[0, 2]] [0]) = [b0, b1, b2]
   \<and> s_beta (solver_init 2 b0 [b1, b2] 1 rl [[0, 2]] [0]) = [0, 0, 0]
   \<and> s_K (solver_init 2 b0 [b1, b2] 1 rl [[0, 2]] [0]) = [0, 1]
   \<and> s_no_convergence (solver_init 2 b0 [b1, b2] 1 rl [[0, 2]] [0])"
  by (simp add: eval_defs eval_nat_numeral)

lemma flat_update:
  "map_sum id (\<lambda>st'. (s_K st', s_g st' ! 1, s_h st' ! 1))
     (coord_update 1 rl [[0, 2]] [0] 0 (solver_init 2 b0 [b1, b2] 1 rl [[0, 2]] [0]))
   = Inr ([0, 1], 0, 0)"
proof -
  let ?st0 = "solver_init 2 b0 [b1, b2] 1 rl [[0, 2]] [0]"
  have p: "ncols [[0, 2]] = 2" by (simp add: ncols_def)
  have s: "shaped 2 ?st0" by (rule solver_init_shaped) (simp_all add: p)
  have h: "s_h ?st0 ! 0 \<noteq> 0" using example2_init [of b0 b1 b2 rl] by simp
  from coord_update_total [OF s p _ h, of 1 rl "[0]"]
  obtain st' where u: "coord_update 1 rl [[0, 2]] [0] 0 ?st0 = Inr st'" by auto
  have k: "s_K st' = [0, 1]"
    using coord_update_frame(1) [OF u] example2_init [of b0 b1 b2 rl] by simp
  have hh: "s_h st' ! 1 = 0"
    using coord_update_other [OF u, of 1] example2_init [of b0 b1 b2 rl] by simp
  have "s_g st' = (s_g ?st0)[0 := s_g st' ! 0]"
    using u by (auto simp: coord_update_def Let_def split: if_splits)
  then have "s_g st' ! 1 = s_g ?st0 ! 1"
    by (metis nth_list_update_neq zero_neq_one)
  then have gg: "s_g st' ! 1 = 0"
    using example2_init [of b0 b1 b2 rl] by simp
  from u k hh gg show ?thesis by simp
qed

text \<open>
  Third run: \<^verbatim>\<open>x = [[30]]\<close>, \<^verbatim>\<open>y = [[0]]\<close>, the draws 0 and 1, so that the linear
  predictor is 30 at the start: the first update, of index 0.
\<close>

lemma steep_init:
  "s_h (solver_init 1 0 [1] alpha rl [[30]] [0]) ! 0 = expit 30 * (1 - expit 30)
   \<and> s_g (solver_init 1 0 [1] alpha rl [[30]] [0]) ! 0 = expit 30
   \<and> s_beta_prev (solver_init 1 0 [1] alpha rl [[30]] [0]) = [0, 1]
   \<and> s_K (solver_init 1 0 [1] alpha rl [[30]] [0]) = [0]"
  by (simp add: eval_defs)

lemma steep_update:
  "map_sum id (\<lambda>st'. s_beta st' ! 0)
     (coord_update alpha rl [[30]] [0] 0 (solver_init 1 0 [1] alpha rl [[30]] [0]))
   = Inr (- (1 + exp 30))"
proof -
  let ?st0 = "solver_init 1 0 [1] alpha rl [[30]] [0]"
  have p: "ncols [[30]] = 1" by (simp add: ncols_def)
  have s: "shaped 1 ?st0" by (rule solver_init_shaped) (simp_all add: p)
  have h: "s_h ?st0 ! 0 \<noteq> 0" using steep_init [of alpha rl] by simp
  from coord_update_value [OF s p _ h, of alpha rl "[0]"]
  obtain st' where u: "coord_update alpha rl [[30]] [0] 0 ?st0 = Inr st'"
    and v: "s_beta st' ! 0 = s_beta_prev ?st0 ! 0 - s_g ?st0 ! 0 / s_h ?st0 ! 0"
    by auto
  have "s_beta st' ! 0 = - (1 + exp 30)"
    unfolding v using steep_init [of alpha rl] by (simp add: newton_intercept_step)
  with u show ?thesis by simp
qed

lemma keep_order: "\<And>K kept. set ((\<lambda>K kept. kept) K kept) = set kept"
  by simp

text \<open>
  The first run with every draw of the generator 0 and the order of \<^verbatim>\<open>K\<close> kept, state by
  state.
\<close>

lemma zero_init:
  "solver_init 1 0 [0] alpha rl [[2]] [0] =
     \<lparr>s_beta = [0, 0], s_beta_prev = [0, 0], s_z = [[0]], s_z_prev = [[0]],
      s_g = [1 / 2, 1], s_h = [1 / 4, 1 + rl * (1 - alpha)], s_K = [0],
      s_L = [], s_DL = [], s_c = 0, s_no_convergence = True\<rparr>"
  by (simp add: eval_defs expit_zero)

lemma zero_update:
  "coord_update alpha rl [[2]] [0] 0 (solver_init 1 0 [0] alpha rl [[2]] [0]) =
     Inr \<lparr>s_beta = [- 2, 0], s_beta_prev = [- 2, 0], s_z = [[- 4]], s_z_prev = [[- 4]],
          s_g = [grad_loss_k [[- 4]] (- 2) alpha rl [2] [0] 0, 1],
          s_h = [hess_loss_k [[- 4]] alpha rl [2] [0] 0, 1 + rl * (1 - alpha)],
          s_K = [0], s_L = [], s_DL = [], s_c = 0, s_no_convergence = True\<rparr>"
  by (simp add: eval_defs expit_zero)

lemma zero_cycle1:
  "cycle (\<lambda>K kept. kept) alpha rl [[2]] [0] (solver_init 1 0 [0] alpha rl [[2]] [0]) =
     Inr \<lparr>s_beta = [- 2, 0], s_beta_prev = [- 2, 0], s_z = [[- 4]], s_z_prev = [[- 4]],
          s_g = [grad_loss_k [[- 4]] (- 2) alpha rl [2] [0] 0, 1],
          s_h = [hess_loss_k [[- 4]] alpha rl [2] [0] 0, 1 + rl * (1 - alpha)],
          s_K = [], s_L = [ln (1 + eps + exp (- 2))], s_DL = [],
          s_c = 1, s_no_convergence = True\<rparr>"
  by (simp add: eval_defs expit_zero)

lemma zero_cycle2:
  "cycle (\<lambda>K kept. kept) alpha rl [[2]] [0]
     \<lparr>s_beta = [- 2, 0], s_beta_prev = [- 2, 0], s_z = [[- 4]], s_z_prev = [[- 4]],
      s_g = [grad_loss_k [[- 4]] (- 2) alpha rl [2] [0] 0, 1],
      s_h = [hess_loss_k [[- 4]] alpha rl [2] [0] 0, 1 + rl * (1 - alpha)],
      s_K = [], s_L = [ln (1 + eps + exp (- 2))], s_DL = [],
      s_c = 1, s_no_convergence = True\<rparr> =
     Inr \<lparr>s_beta = [- 2, 0], s_beta_prev = [- 2, 0], s_z = [[- 4]], s_z_prev = [[- 4]],
          s_g = [grad_loss_k [[- 4]] (- 2) alpha rl [2] [0] 0, 1],
          s_h = [hess_loss_k [[- 4]] alpha rl [2] [0] 0, 1 + rl * (1 - alpha)],
          s_K = [], s_L = [ln (1 + eps + exp (- 2)), ln (1 + eps + exp (- 2))], s_DL = [0],
          s_c = 2, s_no_convergence = False\<rparr>"
  by (simp add: eval_defs expit_zero)

lemma zero_run:
  "solve (\<lambda>K kept. kept) 0 [0] [[2]] [0] alpha rl =
     Some (Inr \<lparr>s_beta = [- 2, 0], s_beta_prev = [- 2, 0], s_z = [[- 4]], s_z_prev = [[- 4]],
          s_g = [grad_loss_k [[- 4]] (- 2) alpha rl [2] [0] 0, 1],
          s_h = [hess_loss_k [[- 4]] alpha rl [2] [0] 0, 1 + rl * (1 - alpha)],
          s_K = [], s_L = [ln (1 + eps + exp (- 2)), ln (1 + eps + exp (- 2))], s_DL = [0],
          s_c = 2, s_no_convergence = False\<rparr>)"
proof -
  have p: "ncols [[2]] = 1" by (simp add: ncols_def)
  have n0: "s_no_convergence (solver_init 1 0 [0] alpha rl [[2]] [0])"
    unfolding zero_init by simp
  show ?thesis
    unfolding solve_def p
    apply (subst while_cycles.simps)
    apply (simp only: n0 if_True zero_cycle1 sum.case)
    apply (subst while_cycles.simps)
    apply (simp only: cd_state.simps if_True zero_cycle2 sum.case)
    apply (subst while_cycles.simps)
    apply (simp only: cd_state.simps if_False)
    done
qed

lemma zero_fit:
  "fitmodel (\<lambda>K kept. kept) (\<lambda>i. 0) [[2]] [0] (rl # rls) alpha =
     path_loop (\<lambda>K kept. kept) 0 [0] [[2]] [0] alpha [[''beta0'' \<mapsto> [- 2], ''beta'' \<mapsto> [0]]] 1 rls"
proof -
  have p: "ncols [[2]] = 1" by (simp add: ncols_def)
  have "grid_point (\<lambda>K kept. kept) 0 [0] [[2]] [0] alpha [] 0 rl
      = Some (Inr [[''beta0'' \<mapsto> [- 2], ''beta'' \<mapsto> [0]]])"
    by (simp add: grid_point_char zero_run stored_record_def)
  then show ?thesis by (simp add: fitmodel_def p Let_def)
qed

lemma zero_grid_point:
  "grid_point (\<lambda>K kept. kept) 0 [0] [[2]] [0] alpha [[''beta0'' \<mapsto> [- 2], ''beta'' \<mapsto> [0]]] 1 rl
      = Some (Inr [[''beta0'' \<mapsto> [- 2], ''beta'' \<mapsto> [0]], [''beta0'' \<mapsto> [- 2], ''beta'' \<mapsto> [0]]])"
proof -
  have "two_keys [''beta0'' \<mapsto> [- 2], ''beta'' \<mapsto> [0::real]]"
    unfolding two_keys_def by (simp add: insert_commute)
  then show ?thesis
    by (simp add: grid_point_char zero_run stored_record_def)
qed

subsection \<open>Losses, gradient steps and faults\<close>

lemma cycle_loss:
  assumes "cycle reorder alpha rl x y st = Inr st'"
  shows "s_L st' \<noteq> [] \<and> last (s_L st') = loss (s_beta st' ! 0) (tl (s_beta st')) alpha rl x y"
  using assms by (auto simp: cycle_def Let_def split: sum.splits if_splits)

lemma gd_step_beta:
  assumes "gd_step e alpha rl x y gst = Inr gst'" and "gd_beta gst = b0 # bs"
  shows "gd_beta gst' =
           (b0 - e * fst (grad_loss b0 bs alpha rl x y))
           # map (\<lambda>v. prox v (rl * alpha))
               (map2 (\<lambda>bj gj. bj - e * gj) bs (snd (grad_loss b0 bs alpha rl x y)))"
  using assms
  by (auto simp: gd_step_def Let_def split_def zip_map2 comp_def split: if_splits)

lemma gd_step_loss:
  assumes "gd_step e alpha rl x y gst = Inr gst'"
  shows "last (gd_L gst') = loss (gd_beta gst' ! 0) (tl (gd_beta gst')) alpha rl x y"
  using assms by (auto simp: gd_step_def Let_def split_def split: if_splits)

lemma fitmodel_path:
  "fitmodel reorder rng x y reg_lambda alpha =
     path_loop reorder (rng 0) (map rng [1..<ncols x + 1]) x y alpha [] 0 reg_lambda"
  by (simp add: fitmodel_def Let_def)

lemma solve_fault:
  assumes "\<And>K kept. set (reorder K kept) = set kept" and "length beta_hat = ncols x"
    and "solve reorder beta0_hat beta_hat x y alpha rl = Some (Inl e)"
  shows "e = NonFinite"
  using while_cycles_fault [of reorder x "ncols x", OF assms(1) refl assms(3) [unfolded solve_def]]
    solver_init_shaped [OF assms(2) refl]
  by blast

lemma graddesc_fails:
  "fitmodel_graddesc notebook_globals rng x y reg_params opt_params = Inl (NameError ''fit_params'')"
  by (simp add: fitmodel_graddesc_def notebook_globals_def)

text \<open>
  The first run again, for every grid and every \<open>alpha\<close>: each grid value adds the same
  record.
\<close>

lemma example_path:
  assumes "\<And>K kept. set (reorder K kept) = set kept"
    and "length fit = l" and "list_all two_keys fit"
  shows "path_loop reorder b0 [b1] [[2]] [0] alpha fit l rls
      = Some (Inr (fit @ replicate (length rls)
                     [''beta0'' \<mapsto> [b0 - (1 + exp (b0 + 2 * b1))], ''beta'' \<mapsto> [0]]))"
  using assms(2,3)
proof (induction rls arbitrary: fit l)
  case Nil
  then show ?case by simp
next
  case (Cons rl rls)
  let ?r = "[''beta0'' \<mapsto> [b0 - (1 + exp (b0 + 2 * b1))], ''beta'' \<mapsto> [0::real]]"
  have k: "two_keys ?r" unfolding two_keys_def by (simp add: insert_commute)
  have g: "grid_point reorder b0 [b1] [[2]] [0] alpha fit l rl = Some (Inr (fit @ [?r]))"
    by (rule example_grid_point [OF assms(1) Cons.prems])
  have len: "length (fit @ [?r]) = Suc l" using Cons.prems(1) by simp
  have la: "list_all two_keys (fit @ [?r])" using Cons.prems(2) k by simp
  have "path_loop reorder b0 [b1] [[2]] [0] alpha (fit @ [?r]) (Suc l) rls
      = Some (Inr ((fit @ [?r]) @ replicate (length rls) ?r))"
    by (rule Cons.IH [OF len la])
  then show ?case
    unfolding path_loop.simps g
    by (simp only: option.case sum.case length_Cons replicate_Suc append_assoc append_Cons append_Nil)
qed

lemma example_fitmodel:
  assumes "\<And>K kept. set (reorder K kept) = set kept"
  shows "fitmodel reorder rng [[2]] [0] reg_lambda alpha
      = Some (Inr (replicate (length reg_lambda)
           [''beta0'' \<mapsto> [rng 0 - (1 + exp (rng 0 + 2 * rng 1))], ''beta'' \<mapsto> [0]]))"
proof -
  have "path_loop reorder (rng 0) [rng 1] [[2]] [0] alpha [] 0 reg_lambda
      = Some (Inr ([] @ replicate (length reg_lambda)
           [''beta0'' \<mapsto> [rng 0 - (1 + exp (rng 0 + 2 * rng 1))], ''beta'' \<mapsto> [0]]))"
    by (rule example_path [OF assms]) simp_all
  then show ?thesis
    unfolding fitmodel_path example_draws by simp
qed


section \<open>The claims\<close>

text \<open>
  C1 (the claim: for every grid index \<open>l \<ge> 1\<close> the inner solver starts from the solution
  stored for \<open>l - 1\<close>). The run on \<^verbatim>\<open>x = [[2]]\<close>, \<^verbatim>\<open>y = [[0]]\<close>, \<^verbatim>\<open>alpha = 0.5\<close>,
  grid \<^verbatim>\<open>[1, 0.5]\<close>, for any draws \<open>rng 0\<close> of \<^verbatim>\<open>beta0_hat\<close> and \<open>rng 1\<close> of \<^verbatim>\<open>beta_hat\<close>:
  grid index 0 ends with \<open>beta0 = rng 0 - (1 + exp (rng 0 + 2 * rng 1))\<close> and
  \<open>beta = [0]\<close>; the warm initialisation at index 1 copies these values into the new
  record; the solver at index 1 nevertheless starts from the initial draw,
  \<^verbatim>\<open>beta_prev = [rng 0, rng 1]\<close> and \<^verbatim>\<open>z\<close> its linear predictor, which is not the stored
  solution; the record it writes replaces the copied one.
\<close>

theorem warm_start_unused_example:
  "fitmodel (\<lambda>K kept. kept) rng [[2]] [0] [1] (1 / 2)
     = Some (Inr [[''beta0'' \<mapsto> [rng 0 - (1 + exp (rng 0 + 2 * rng 1))], ''beta'' \<mapsto> [0]]])
   \<and> warm_init 1 (rng 0) [rng 1]
         [[''beta0'' \<mapsto> [rng 0 - (1 + exp (rng 0 + 2 * rng 1))], ''beta'' \<mapsto> [0]], new_record 1]
     = Inr [[''beta0'' \<mapsto> [rng 0 - (1 + exp (rng 0 + 2 * rng 1))], ''beta'' \<mapsto> [0]],
            [''beta0'' \<mapsto> [rng 0 - (1 + exp (rng 0 + 2 * rng 1))], ''beta'' \<mapsto> [0]]]
   \<and> s_beta_prev (solver_init 1 (rng 0) [rng 1] (1 / 2) (1 / 2) [[2]] [0]) = [rng 0, rng 1]
   \<and> s_z_prev (solver_init 1 (rng 0) [rng 1] (1 / 2) (1 / 2) [[2]] [0]) = predictor [rng 0, rng 1] [[2]]
   \<and> [rng 0, rng 1] \<noteq> [rng 0 - (1 + exp (rng 0 + 2 * rng 1)), 0]
   \<and> fitmodel (\<lambda>K kept. kept) rng [[2]] [0] [1, 1 / 2] (1 / 2)
     = Some (Inr [[''beta0'' \<mapsto> [rng 0 - (1 + exp (rng 0 + 2 * rng 1))], ''beta'' \<mapsto> [0]],
                  [''beta0'' \<mapsto> [rng 0 - (1 + exp (rng 0 + 2 * rng 1))], ''beta'' \<mapsto> [0]]])"
proof (intro conjI)
  let ?r = "[''beta0'' \<mapsto> [rng 0 - (1 + exp (rng 0 + 2 * rng 1))], ''beta'' \<mapsto> [0::real]]"
  have k: "two_keys ?r" unfolding two_keys_def by (simp add: insert_commute)
  show "fitmodel (\<lambda>K kept. kept) rng [[2]] [0] [1] (1 / 2) = Some (Inr [?r])"
    unfolding example_fit [of "\<lambda>K kept. kept", OF keep_order] by simp
  show "warm_init 1 (rng 0) [rng 1] [?r, new_record 1] = Inr [?r, ?r]"
    by (simp add: warm_init_def set_last_def new_record_def fun_eq_iff)
  show "s_beta_prev (solver_init 1 (rng 0) [rng 1] (1 / 2) (1 / 2) [[2]] [0]) = [rng 0, rng 1]"
    unfolding example_init by simp
  show "s_z_prev (solver_init 1 (rng 0) [rng 1] (1 / 2) (1 / 2) [[2]] [0]) = predictor [rng 0, rng 1] [[2]]"
    unfolding example_init by (simp add: predictor_def dot_def)
  have "0 < exp (rng 0 + 2 * rng 1)" by simp
  then have "rng 0 - (1 + exp (rng 0 + 2 * rng 1)) < rng 0" by linarith
  then have "rng 0 \<noteq> rng 0 - (1 + exp (rng 0 + 2 * rng 1))" by simp
  then show "[rng 0, rng 1] \<noteq> [rng 0 - (1 + exp (rng 0 + 2 * rng 1)), 0]" by simp
  have len: "length [?r] = 1" by simp
  have la: "list_all two_keys [?r]" using k by simp
  have g: "grid_point (\<lambda>K kept. kept) (rng 0) [rng 1] [[2]] [0] (1 / 2) [?r] 1 (1 / 2)
      = Some (Inr ([?r] @ [?r]))"
    by (rule example_grid_point [of "\<lambda>K kept. kept", OF keep_order len la])
  show "fitmodel (\<lambda>K kept. kept) rng [[2]] [0] [1, 1 / 2] (1 / 2) = Some (Inr [?r, ?r])"
    unfolding example_fit [of "\<lambda>K kept. kept", OF keep_order] path_loop.simps g by simp
qed

text \<open>
  C2 (the claim: after every coordinate update \<^verbatim>\<open>z\<close> is the linear predictor of the
  current parameters). The first update of a run on \<^verbatim>\<open>x = [[2]]\<close>, \<^verbatim>\<open>y = [[0]]\<close>,
  \<open>k = 0\<close>, for any draws \<open>b0\<close>, \<open>b1\<close> and any \<open>alpha\<close> and grid value: the step of the
  intercept is \<open>1 + exp (b0 + 2 * b1)\<close>, the linear predictor of the new parameters is
  the old one minus the step, and the solver holds in \<^verbatim>\<open>z\<close> the old one minus the step
  times the design column \<^verbatim>\<open>x[:,0] = [2]\<close>, a different number. For the draws 0, 0 the
  intercept moves from 0 to \<open>-2\<close>, the predictor is \<open>-2\<close> and \<^verbatim>\<open>z = -4\<close>.
\<close>

theorem z_update_example:
  "map_sum id (\<lambda>st. (s_beta_prev st, s_z st, predictor (s_beta_prev st) [[2]]))
     (coord_update alpha rl [[2]] [0] 0 (solver_init 1 b0 [b1] alpha rl [[2]] [0]))
   = Inr ([b0 - (1 + exp (b0 + 2 * b1)), b1],
          [[b0 + 2 * b1 - 2 * (1 + exp (b0 + 2 * b1))]],
          [[b0 + 2 * b1 - (1 + exp (b0 + 2 * b1))]])
   \<and> b0 + 2 * b1 - 2 * (1 + exp (b0 + 2 * b1)) \<noteq> b0 + 2 * b1 - (1 + exp (b0 + 2 * b1))
   \<and> map_sum id (\<lambda>st. (s_beta st, s_z st, predictor (s_beta st) [[2]]))
       (coord_update (1 / 2) 1 [[2]] [0] 0 (solver_init 1 0 [0] (1 / 2) 1 [[2]] [0]))
     = Inr ([- 2, 0], [[- 4]], [[- 2]])"
proof (intro conjI)
  show "map_sum id (\<lambda>st. (s_beta_prev st, s_z st, predictor (s_beta_prev st) [[2]]))
     (coord_update alpha rl [[2]] [0] 0 (solver_init 1 b0 [b1] alpha rl [[2]] [0]))
   = Inr ([b0 - (1 + exp (b0 + 2 * b1)), b1],
          [[b0 + 2 * b1 - 2 * (1 + exp (b0 + 2 * b1))]],
          [[b0 + 2 * b1 - (1 + exp (b0 + 2 * b1))]])"
    unfolding example_update by (simp add: predictor_def dot_def)
  have "0 < exp (b0 + 2 * b1)" by simp
  then have "b0 + 2 * b1 - 2 * (1 + exp (b0 + 2 * b1)) < b0 + 2 * b1 - (1 + exp (b0 + 2 * b1))"
    by (simp add: add_pos_pos)
  then show "b0 + 2 * b1 - 2 * (1 + exp (b0 + 2 * b1)) \<noteq> b0 + 2 * b1 - (1 + exp (b0 + 2 * b1))"
    by (rule less_imp_neq)
  show "map_sum id (\<lambda>st. (s_beta st, s_z st, predictor (s_beta st) [[2]]))
       (coord_update (1 / 2) 1 [[2]] [0] 0 (solver_init 1 0 [0] (1 / 2) 1 [[2]] [0]))
     = Inr ([- 2, 0], [[- 4]], [[- 2]])"
    unfolding example_update by (simp add: predictor_def dot_def)
qed

text \<open>
  C3 (the claim: after a cycle exactly the indices with a zero coefficient leave the
  active set). The first cycle of the same run, for any draws \<open>b0\<close>, \<open>b1\<close>: the active set
  is \<open>[0]\<close>, afterwards \<^verbatim>\<open>beta = [b0 - (1 + exp (b0 + 2 * b1)), 0]\<close>, and the index removed
  is 0, whose coefficient was just updated, because position 0 of \<^verbatim>\<open>beta[1:]\<close> is index 1
  of \<^verbatim>\<open>beta\<close>; for the draws 0, 0 the coefficient of the removed index is \<open>-2\<close>. On \<^verbatim>\<open>K = [0, 1, 2]\<close> and
  \<^verbatim>\<open>beta = [5, 0, 7, 0]\<close> the update removes 0 and 2 and keeps 1.
\<close>

theorem active_set_update_example:
  "s_K (solver_init 1 b0 [b1] alpha rl [[2]] [0]) = [0]
   \<and> map_sum id (\<lambda>st. (s_beta st, s_K st))
        (cycle (\<lambda>K kept. kept) alpha rl [[2]] [0] (solver_init 1 b0 [b1] alpha rl [[2]] [0]))
      = Inr ([b0 - (1 + exp (b0 + 2 * b1)), 0], [])
   \<and> map_sum id (\<lambda>st. (s_beta st, s_K st))
        (cycle (\<lambda>K kept. kept) (1 / 2) 1 [[2]] [0] (solver_init 1 0 [0] (1 / 2) 1 [[2]] [0]))
      = Inr ([- 2, 0], [])
   \<and> update_active (\<lambda>K kept. kept) [0, 1, 2] [5, 0, 7, 0] = [1]"
proof -
  have a: "map_sum id (\<lambda>st. (s_beta st, s_K st))
        (cycle (\<lambda>K kept. kept) alpha rl [[2]] [0] (solver_init 1 b0 [b1] alpha rl [[2]] [0]))
      = Inr ([b0 - (1 + exp (b0 + 2 * b1)), 0], [])" for alpha rl b0 b1
    using example_cycle1 [of "\<lambda>K kept. kept" alpha rl b0 b1] by auto
  have b: "s_K (solver_init 1 b0 [b1] alpha rl [[2]] [0]) = [0]"
    unfolding example_init by simp
  have c: "update_active (\<lambda>K kept. kept) [0, 1, 2] [5, 0, 7, 0] = [1]"
    by (simp add: update_active_def zero_positions_def eval_nat_numeral)
  from a [of "1 / 2" 1 0 0] have a0: "map_sum id (\<lambda>st. (s_beta st, s_K st))
        (cycle (\<lambda>K kept. kept) (1 / 2) 1 [[2]] [0] (solver_init 1 0 [0] (1 / 2) 1 [[2]] [0]))
      = Inr ([- 2, 0], [])" by simp
  from b a a0 c show ?thesis by (intro conjI)
qed

text \<open>
  C4 (amended). At the start of every grid point the active set is set anew to a list
  of distinct indices within \<open>0..p\<close> that contains the intercept index 0 (for
  \<open>p \<ge> 1\<close>) and every non-intercept index \<open>1..p-1\<close>; a cycle never adds an index to the
  active set, so the set at the end of the grid point's cycles is within the initial one;
  and the first pass over the initial active set updates every index in it, so the
  intercept and every index \<open>1..p-1\<close> (afterwards \<^verbatim>\<open>beta[k]\<close> and \<^verbatim>\<open>beta_prev[k]\<close> hold
  the same new value). The order in which Python lists a set is any order.
\<close>

theorem active_set_discipline:
  assumes "\<And>K kept. set (reorder K kept) = set kept"
    and "st0 = solver_init (ncols x) (rng 0) (map rng [1..<ncols x + 1]) alpha rl x y"
  shows "(0 < ncols x \<longrightarrow> 0 \<in> set (s_K st0))
       \<and> (\<forall>k. 0 < k \<and> k < ncols x \<longrightarrow> k \<in> set (s_K st0))
       \<and> set (s_K st0) \<subseteq> {0..ncols x} \<and> distinct (s_K st0)
       \<and> (\<forall>st st'. cycle reorder alpha rl x y st = Inr st' \<longrightarrow> set (s_K st') \<subseteq> set (s_K st))
       \<and> (\<forall>st'. while_cycles reorder alpha rl x y st0 = Some (Inr st') \<longrightarrow> set (s_K st') \<subseteq> set (s_K st0))
       \<and> (\<forall>st1. for_k alpha rl x y (s_K st0) st0 = Inr st1
             \<longrightarrow> (\<forall>k\<in>set (s_K st0). s_beta st1 ! k = s_beta_prev st1 ! k)
               \<and> (\<forall>k<ncols x. s_beta st1 ! k = s_beta_prev st1 ! k))"
proof -
  have K0: "s_K st0 = [0..<ncols x]"
    and lb: "length (s_beta st0) = ncols x + 1"
    and lp: "length (s_beta_prev st0) = ncols x + 1"
    by (simp_all add: assms(2) solver_init_def Let_def split_def)
  have a: "0 < ncols x \<longrightarrow> 0 \<in> set (s_K st0)" by (simp add: K0)
  have a': "\<forall>k. 0 < k \<and> k < ncols x \<longrightarrow> k \<in> set (s_K st0)" by (simp add: K0)
  have b: "set (s_K st0) \<subseteq> {0..ncols x}" by (auto simp: K0)
  have c: "distinct (s_K st0)" by (simp add: K0)
  have d: "\<forall>st st'. cycle reorder alpha rl x y st = Inr st' \<longrightarrow> set (s_K st') \<subseteq> set (s_K st)"
    using cycle_shrinks [of reorder, OF assms(1)] by blast
  have e: "\<forall>st'. while_cycles reorder alpha rl x y st0 = Some (Inr st') \<longrightarrow> set (s_K st') \<subseteq> set (s_K st0)"
    using while_cycles_shrinks [of reorder, OF assms(1)] by blast
  have f: "\<forall>st1. for_k alpha rl x y (s_K st0) st0 = Inr st1
             \<longrightarrow> (\<forall>k\<in>set (s_K st0). s_beta st1 ! k = s_beta_prev st1 ! k)
               \<and> (\<forall>k<ncols x. s_beta st1 ! k = s_beta_prev st1 ! k)"
  proof (intro allI impI)
    fix st1
    assume r: "for_k alpha rl x y (s_K st0) st0 = Inr st1"
    have v: "s_beta st1 ! k = s_beta_prev st1 ! k" if k: "k \<in> set (s_K st0)" for k
    proof -
      from k have "k < length (s_beta st0)" and "k < length (s_beta_prev st0)"
        by (simp_all add: K0 lb lp)
      from for_k_visit [OF r this] k show ?thesis by simp
    qed
    have "s_beta st1 ! k = s_beta_prev st1 ! k" if "k < ncols x" for k
      using v [of k] that by (simp add: K0)
    with v show "(\<forall>k\<in>set (s_K st0). s_beta st1 ! k = s_beta_prev st1 ! k)
               \<and> (\<forall>k<ncols x. s_beta st1 ! k = s_beta_prev st1 ! k)"
      by blast
  qed
  from a a' b c d e f show ?thesis by (intro conjI)
qed

theorem active_set_discipline_witness:
  "0 \<in> set (s_K (solver_init 1 0 [0] (1 / 2) 1 [[2]] [0]))
   \<and> set (s_K (solver_init 1 0 [0] (1 / 2) 1 [[2]] [0])) \<subseteq> {0..1}
   \<and> distinct (s_K (solver_init 1 0 [0] (1 / 2) 1 [[2]] [0]))
   \<and> map_sum id (\<lambda>st'. set (s_K st') \<subseteq> set (s_K (solver_init 1 0 [0] (1 / 2) 1 [[2]] [0])))
         (cycle (\<lambda>K kept. kept) (1 / 2) 1 [[2]] [0] (solver_init 1 0 [0] (1 / 2) 1 [[2]] [0]))
       = Inr True
   \<and> map_option (map_sum id (\<lambda>st'. set (s_K st') \<subseteq> set (s_K (solver_init 1 0 [0] (1 / 2) 1 [[2]] [0]))))
         (while_cycles (\<lambda>K kept. kept) (1 / 2) 1 [[2]] [0] (solver_init 1 0 [0] (1 / 2) 1 [[2]] [0]))
       = Some (Inr True)
   \<and> map_sum id (\<lambda>st1. list_all (\<lambda>k. s_beta st1 ! k = s_beta_prev st1 ! k)
                            (s_K (solver_init 1 0 [0] (1 / 2) 1 [[2]] [0])))
         (for_k (1 / 2) 1 [[2]] [0] (s_K (solver_init 1 0 [0] (1 / 2) 1 [[2]] [0]))
            (solver_init 1 0 [0] (1 / 2) 1 [[2]] [0]))
       = Inr True
   \<and> 0 \<in> set (s_K (solver_init 2 0 [0, 0] (1 / 2) 1 [[1, 2]] [0]))
   \<and> 1 \<in> set (s_K (solver_init 2 0 [0, 0] (1 / 2) 1 [[1, 2]] [0]))
   \<and> map_sum id (\<lambda>st1. list_all (\<lambda>k. s_beta st1 ! k = s_beta_prev st1 ! k) [0, 1])
         (for_k (1 / 2) 1 [[1, 2]] [0] (s_K (solver_init 2 0 [0, 0] (1 / 2) 1 [[1, 2]] [0]))
            (solver_init 2 0 [0, 0] (1 / 2) 1 [[1, 2]] [0]))
       = Inr True"
proof -
  let ?st0 = "solver_init 1 0 [0] (1 / 2) 1 [[2]] [0]"
  let ?s = "solver_init 2 0 [0, 0] (1 / 2) 1 [[1, 2]] [0]"
  have p: "ncols [[2]] = 1" by (simp add: ncols_def)
  have r: "map (\<lambda>i. 0::real) [1..<1 + 1] = [0]" by simp
  have h: "\<And>K kept. set ((\<lambda>K kept. kept) K kept) = set kept" by simp
  note t = active_set_discipline [of "\<lambda>K kept. kept" ?st0
      "[[2]]" "\<lambda>i. 0" "1 / 2" 1 "[0]", OF h, unfolded p r, OF refl]
  obtain st1 where c: "cycle (\<lambda>K kept. kept) (1 / 2) 1 [[2]] [0] ?st0 = Inr st1"
    using zero_cycle1 [of "1 / 2" 1] by blast
  obtain st2 where w: "while_cycles (\<lambda>K kept. kept) (1 / 2) 1 [[2]] [0] ?st0 = Some (Inr st2)"
    using zero_run [of "1 / 2" 1] unfolding solve_def p by blast
  have K0: "s_K ?st0 = [0]" unfolding zero_init by simp
  obtain st3 where f: "for_k (1 / 2) 1 [[2]] [0] (s_K ?st0) ?st0 = Inr st3"
    unfolding K0 using zero_update [of "1 / 2" 1] by (simp only: for_k.simps sum.case)
  from t c have 1: "set (s_K st1) \<subseteq> set (s_K ?st0)" by blast
  from t w have 2: "set (s_K st2) \<subseteq> set (s_K ?st0)" by blast
  from t f have "\<forall>k\<in>set (s_K ?st0). s_beta st3 ! k = s_beta_prev st3 ! k" by blast
  then have 3: "list_all (\<lambda>k. s_beta st3 ! k = s_beta_prev st3 ! k) (s_K ?st0)"
    by (simp add: list_all_iff)
  from t have 0: "0 \<in> set (s_K ?st0)" "set (s_K ?st0) \<subseteq> {0..1}" "distinct (s_K ?st0)"
    by simp_all
  have p2: "ncols [[1, 2]] = 2" by (simp add: ncols_def)
  have r2: "map (\<lambda>i. 0::real) [1..<2 + 1] = [0, 0]" by (simp add: upt_rec)
  note t2 = active_set_discipline [of "\<lambda>K kept. kept" ?s
      "[[1, 2]]" "\<lambda>i. 0" "1 / 2" 1 "[0]", OF h, unfolded p2 r2, OF refl]
  from t2 have 4: "0 \<in> set (s_K ?s)" by simp
  from t2 have "\<forall>k. 0 < k \<and> k < 2 \<longrightarrow> k \<in> set (s_K ?s)" by blast
  then have 5: "1 \<in> set (s_K ?s)" by simp
  have sh: "shaped 2 ?s" by (rule solver_init_shaped) (simp_all add: p2)
  have K2: "s_K ?s = [0, 1]" by (simp add: solver_init_def Let_def split_def upt_rec)
  have h0: "s_h ?s ! 0 \<noteq> 0" and h1: "s_h ?s ! 1 \<noteq> 0"
    by (simp_all add: eval_defs expit_zero)
  from coord_update_total [OF sh p2 _ h0, of "1 / 2" 1 "[0]"]
  obtain s1 where u1: "coord_update (1 / 2) 1 [[1, 2]] [0] 0 ?s = Inr s1" by auto
  have sh1: "shaped 2 s1" by (rule coord_update_shaped [OF sh u1])
  have "s_h s1 ! 1 \<noteq> 0" using coord_update_other [OF u1, of 1] h1 by simp
  from coord_update_total [OF sh1 p2 _ this, of "1 / 2" 1 "[0]"]
  obtain s2 where u2: "coord_update (1 / 2) 1 [[1, 2]] [0] 1 s1 = Inr s2" by auto
  have f2: "for_k (1 / 2) 1 [[1, 2]] [0] (s_K ?s) ?s = Inr s2"
    unfolding K2 by (simp only: for_k.simps u1 u2 sum.case)
  from t2 f2 have "\<forall>k<2. s_beta s2 ! k = s_beta_prev s2 ! k" by blast
  then have 6: "list_all (\<lambda>k. s_beta s2 ! k = s_beta_prev s2 ! k) [0, 1]"
    by simp
  show ?thesis
    by (intro conjI 0 4 5) (simp_all only: c w f f2 map_sum.simps option.map 1 2 3 6 id_apply)
qed

text \<open>
  C4 as stated fails: for one predictor the initial active set is \<open>[0]\<close>; it holds the
  intercept index 0 and not the index 1.
\<close>

theorem active_set_init_example:
  "ncols [[2]] = 1
   \<and> s_K (solver_init (ncols [[2]]) 0 [0] (1 / 2) 1 [[2]] [0]) = [0]
   \<and> 0 \<in> set (s_K (solver_init (ncols [[2]]) 0 [0] (1 / 2) 1 [[2]] [0]))
   \<and> 1 \<notin> set (s_K (solver_init (ncols [[2]]) 0 [0] (1 / 2) 1 [[2]] [0]))"
proof -
  have p: "ncols [[2]] = 1" by (simp add: ncols_def)
  show ?thesis unfolding p zero_init by simp
qed

text \<open>
  C5. For every real \<open>x\<close> and every threshold \<open>t \<ge> 0\<close> the proximal operator is
  \<open>sign x * max (|x| - t) 0\<close>; in particular \<open>prox x 0 = x\<close>, \<open>prox x t = 0\<close> whenever
  \<open>|x| \<le> t\<close>, and \<open>|prox x t|\<close> does not increase when \<open>t\<close> grows.
\<close>

theorem prox_soft_threshold:
  assumes "0 \<le> t"
  shows "prox x t = sgn x * max (\<bar>x\<bar> - t) 0
       \<and> prox x 0 = x
       \<and> (\<bar>x\<bar> \<le> t \<longrightarrow> prox x t = 0)
       \<and> (\<forall>t'. t \<le> t' \<longrightarrow> \<bar>prox x t'\<bar> \<le> \<bar>prox x t\<bar>)"
proof (intro conjI allI impI)
  show "prox x t = sgn x * max (\<bar>x\<bar> - t) 0"
    by (simp add: prox_def max_def)
  show "prox x 0 = x"
    by (cases "x = 0") (simp_all add: prox_def mult_sgn_abs)
  show "prox x t = 0" if "\<bar>x\<bar> \<le> t"
    using that by (simp add: prox_def)
  show "\<bar>prox x t'\<bar> \<le> \<bar>prox x t\<bar>" if "t \<le> t'" for t'
  proof (cases "x = 0")
    case True
    then show ?thesis by (simp add: prox_def)
  next
    case False
    then have "\<bar>sgn x\<bar> = 1" by (simp add: abs_sgn_eq)
    then show ?thesis
      using that assms by (auto simp: prox_def abs_mult)
  qed
qed

theorem prox_soft_threshold_witness:
  "(0::real) \<le> 1
   \<and> prox 3 1 = sgn 3 * max (\<bar>3\<bar> - 1) 0 \<and> prox 3 1 = 2
   \<and> prox 3 0 = 3
   \<and> prox 1 1 = 0
   \<and> \<bar>prox 3 2\<bar> \<le> \<bar>prox 3 1\<bar>"
  using prox_soft_threshold [of 1 3] prox_soft_threshold [of 1 1]
  by (simp add: prox_def)

text \<open>
  C6. The penalty is \<open>0.5 * (1 - alpha) * ||beta||\<close> with the Euclidean norm, not its
  square, plus \<open>alpha\<close> times the sum of the absolute values, and it is applied to the
  coefficients only: the objective adds \<open>lambda\<close> times the penalty of \<^verbatim>\<open>beta\<close> without
  the intercept; the intercept terms of the gradient and of the Hessian, in the batch
  and in the per-coordinate form, do not depend on \<open>alpha\<close> and \<open>lambda\<close>; a coordinate
  update soft-thresholds the Newton step for \<open>k > 0\<close> and leaves it as it is for the
  intercept \<open>k = 0\<close>; the loss recorded by a cycle is the objective of
  \<^verbatim>\<open>(beta[0], beta[1:])\<close>; and a gradient-descent step moves the intercept by the plain
  gradient step and soft-thresholds the other entries.
\<close>

theorem penalty_on_coefficients_only:
  "penalty alpha b = 0.5 * (1 - alpha) * sqrt (sum_list (map (\<lambda>v. v\<^sup>2) b)) + alpha * sum_list (map abs b)
   \<and> loss beta0 b alpha rl x y = - logL beta0 b x y + rl * penalty alpha b
   \<and> fst (grad_loss beta0 b alpha rl x y) = fst (grad_loss beta0 b alpha' rl' x y)
   \<and> fst (hessian_loss beta0 b alpha rl x y) = fst (hessian_loss beta0 b alpha' rl' x y)
   \<and> grad_loss_k z beta_k alpha rl xk y 0 = grad_loss_k z beta_k' alpha' rl' xk y 0
   \<and> hess_loss_k z alpha rl xk y 0 = hess_loss_k z alpha' rl' xk y 0
   \<and> (\<forall>st'. coord_update alpha rl x y k st = Inr st' \<longrightarrow>
         s_beta st' ! k =
           (if k > 0 then prox (s_beta_prev st ! k - s_g st ! k / s_h st ! k) (rl * alpha)
            else s_beta_prev st ! k - s_g st ! k / s_h st ! k))
   \<and> (\<forall>st'. cycle reorder alpha rl x y st = Inr st' \<longrightarrow>
         last (s_L st') = - logL (s_beta st' ! 0) (tl (s_beta st')) x y
                          + rl * penalty alpha (tl (s_beta st')))
   \<and> (\<forall>gst'. gd_step e alpha rl x y gst = Inr gst' \<and> gd_beta gst = b0 # bs \<longrightarrow>
         gd_beta gst' =
           (b0 - e * fst (grad_loss b0 bs alpha rl x y))
           # map (\<lambda>v. prox v (rl * alpha))
               (map2 (\<lambda>bj gj. bj - e * gj) bs (snd (grad_loss b0 bs alpha rl x y)))
       \<and> last (gd_L gst') = - logL (gd_beta gst' ! 0) (tl (gd_beta gst')) x y
                              + rl * penalty alpha (tl (gd_beta gst')))"
proof -
  have l: "loss c d alpha rl x y = - logL c d x y + rl * penalty alpha d" for c d
    by (simp add: loss_def Let_def)
  have 1: "penalty alpha b = 0.5 * (1 - alpha) * sqrt (sum_list (map (\<lambda>v. v\<^sup>2) b)) + alpha * sum_list (map abs b)"
    by (simp add: penalty_def norm_l2_def norm_l1_def power2_eq_square)
  have 3: "fst (grad_loss beta0 b alpha rl x y) = fst (grad_loss beta0 b alpha' rl' x y)"
    by (simp add: grad_loss_def Let_def)
  have 4: "fst (hessian_loss beta0 b alpha rl x y) = fst (hessian_loss beta0 b alpha' rl' x y)"
    by (simp add: hessian_loss_def Let_def)
  have 5: "grad_loss_k z beta_k alpha rl xk y 0 = grad_loss_k z beta_k' alpha' rl' xk y 0"
    by (simp add: grad_loss_k_def Let_def)
  have 6: "hess_loss_k z alpha rl xk y 0 = hess_loss_k z alpha' rl' xk y 0"
    by (simp add: hess_loss_k_def Let_def)
  have 7: "\<forall>st'. coord_update alpha rl x y k st = Inr st' \<longrightarrow>
         s_beta st' ! k =
           (if k > 0 then prox (s_beta_prev st ! k - s_g st ! k / s_h st ! k) (rl * alpha)
            else s_beta_prev st ! k - s_g st ! k / s_h st ! k)"
    by (auto simp: coord_update_def Let_def split: if_splits)
  have 8: "\<forall>st'. cycle reorder alpha rl x y st = Inr st' \<longrightarrow>
         last (s_L st') = - logL (s_beta st' ! 0) (tl (s_beta st')) x y
                          + rl * penalty alpha (tl (s_beta st'))"
    using cycle_loss [of reorder alpha rl x y st] by (simp add: l)
  have 9: "\<forall>gst'. gd_step e alpha rl x y gst = Inr gst' \<and> gd_beta gst = b0 # bs \<longrightarrow>
         gd_beta gst' =
           (b0 - e * fst (grad_loss b0 bs alpha rl x y))
           # map (\<lambda>v. prox v (rl * alpha))
               (map2 (\<lambda>bj gj. bj - e * gj) bs (snd (grad_loss b0 bs alpha rl x y)))
       \<and> last (gd_L gst') = - logL (gd_beta gst' ! 0) (tl (gd_beta gst')) x y
                              + rl * penalty alpha (tl (gd_beta gst'))"
  proof (intro allI impI, elim conjE, intro conjI)
    fix gst'
    assume s: "gd_step e alpha rl x y gst = Inr gst'" and b: "gd_beta gst = b0 # bs"
    show "gd_beta gst' =
           (b0 - e * fst (grad_loss b0 bs alpha rl x y))
           # map (\<lambda>v. prox v (rl * alpha))
               (map2 (\<lambda>bj gj. bj - e * gj) bs (snd (grad_loss b0 bs alpha rl x y)))"
      by (rule gd_step_beta [OF s b])
    show "last (gd_L gst') = - logL (gd_beta gst' ! 0) (tl (gd_beta gst')) x y
                              + rl * penalty alpha (tl (gd_beta gst'))"
      unfolding gd_step_loss [OF s] by (rule l)
  qed
  from 1 l [of beta0 b] 3 4 5 6 7 8 9 show ?thesis by (intro conjI)
qed

theorem penalty_on_coefficients_only_witness:
  "penalty (1 / 2) [3, - 4] = 19 / 4
   \<and> map_sum id (\<lambda>st'. s_beta st' ! 0)
        (coord_update (1 / 2) 1 [[2]] [0] 0 (solver_init 1 0 [0] (1 / 2) 1 [[2]] [0])) = Inr (- 2)
   \<and> map_sum id (\<lambda>st'. last (s_L st'))
        (cycle (\<lambda>K kept. kept) (1 / 2) 1 [[2]] [0] (solver_init 1 0 [0] (1 / 2) 1 [[2]] [0]))
       = Inr (- logL (- 2) [0] [[2]] [0] + 1 * penalty (1 / 2) [0])
   \<and> map_sum id gd_beta (gd_step 1 (1 / 2) 1 [[2]] [0]
        \<lparr>gd_beta = [0, 0], gd_g = [0, 0], gd_L = [], gd_DL = [], gd_t = 0,
         gd_no_convergence = True\<rparr>) = Inr [- 1 / 2, - 1 / 2]"
proof -
  let ?st0 = "solver_init 1 0 [0] (1 / 2) 1 [[2]] [0]"
  let ?gst = "\<lparr>gd_beta = [0, 0::real], gd_g = [0, 0::real], gd_L = [], gd_DL = [], gd_t = 0,
         gd_no_convergence = True\<rparr>"
  note t = penalty_on_coefficients_only [where alpha = "1 / 2" and b = "[3, - 4]" and rl = 1
      and x = "[[2]]" and y = "[0]" and st = ?st0 and reorder = "\<lambda>K kept. kept" and gst = ?gst
      and ?b0.0 = 0 and bs = "[0]" and e = 1 and ?beta0.0 = 0 and alpha' = 0 and rl' = 0
      and z = "[]" and xk = "[]" and beta_k = 0 and beta_k' = 0 and k = 0]
  have a: "penalty (1 / 2) [3, - 4] = 19 / 4"
  proof -
    have "sqrt (25::real) = 5" using real_sqrt_abs [of 5] by simp
    with t show ?thesis by simp
  qed
  obtain st' where u: "coord_update (1 / 2) 1 [[2]] [0] 0 ?st0 = Inr st'"
    using zero_update [of "1 / 2" 1] by simp
  with t have "s_beta st' ! 0 = s_beta_prev ?st0 ! 0 - s_g ?st0 ! 0 / s_h ?st0 ! 0"
    by simp
  then have "s_beta st' ! 0 = - 2" unfolding zero_init by simp
  with u have d: "map_sum id (\<lambda>st'. s_beta st' ! 0) (coord_update (1 / 2) 1 [[2]] [0] 0 ?st0) = Inr (- 2)"
    by simp
  obtain st1 where cy: "cycle (\<lambda>K kept. kept) (1 / 2) 1 [[2]] [0] ?st0 = Inr st1"
    and sb: "s_beta st1 = [- 2, 0]"
    using zero_cycle1 [of "1 / 2" 1] by simp
  from t cy have "last (s_L st1) = - logL (s_beta st1 ! 0) (tl (s_beta st1)) [[2]] [0]
      + 1 * penalty (1 / 2) (tl (s_beta st1))" by blast
  with cy sb have e: "map_sum id (\<lambda>st'. last (s_L st'))
        (cycle (\<lambda>K kept. kept) (1 / 2) 1 [[2]] [0] ?st0)
       = Inr (- logL (- 2) [0] [[2]] [0] + 1 * penalty (1 / 2) [0])"
    by simp
  have g: "grad_loss 0 [0] (1 / 2) 1 [[2]] [0] = (1 / 2, [1])"
    by (simp add: eval_defs expit_zero)
  obtain gst' where gs: "gd_step 1 (1 / 2) 1 [[2]] [0] ?gst = Inr gst'"
    by (simp add: gd_step_def Let_def split_def)
  with t have "gd_beta gst' =
           (0 - 1 * fst (grad_loss 0 [0] (1 / 2) 1 [[2]] [0]))
           # map (\<lambda>v. prox v (1 * (1 / 2)))
               (map2 (\<lambda>bj gj. bj - 1 * gj) [0] (snd (grad_loss 0 [0] (1 / 2) 1 [[2]] [0])))"
    by simp
  then have "gd_beta gst' = [- 1 / 2, - 1 / 2]"
    unfolding g by (simp add: prox_def)
  with gs have f: "map_sum id gd_beta (gd_step 1 (1 / 2) 1 [[2]] [0] ?gst) = Inr [- 1 / 2, - 1 / 2]"
    by simp
  from a d e f show ?thesis by (intro conjI)
qed

text \<open>
  C7 (amended). The Newton step has no guard against a small Hessian entry. In a state
  of a run on \<open>p\<close> predictors and for an index \<open>k < p\<close>: for every \<open>h_k \<noteq> 0\<close>, however
  small, the update is made, and the new coefficient is computed from the quotient
  \<open>g_k / h_k\<close> itself, with no floor on \<open>h_k\<close> and no skipped or deferred update.
\<close>

theorem newton_step_unguarded:
  assumes "shaped p st" and "ncols x = p" and "k < p" and "s_h st ! k \<noteq> 0"
  shows "\<exists>st'. coord_update alpha rl x y k st = Inr st'
           \<and> s_beta st' ! k =
               (if k > 0 then prox (s_beta_prev st ! k - s_g st ! k / s_h st ! k) (rl * alpha)
                else s_beta_prev st ! k - s_g st ! k / s_h st ! k)"
  using assms by (rule coord_update_value)

theorem newton_step_unguarded_witness:
  "shaped 2 \<lparr>s_beta = [0, 0, 0], s_beta_prev = [0, 1, 0], s_z = [[0]], s_z_prev = [[0]],
            s_g = [0, 1, 0], s_h = [1, 1 / 10 ^ 20, 1], s_K = [0, 1],
            s_L = [], s_DL = [], s_c = 0, s_no_convergence = True\<rparr>
   \<and> ncols [[0, 2]] = 2
   \<and> map_sum id (\<lambda>st'. s_beta st' ! 1)
        (coord_update 0 1 [[0, 2]] [0] 1
           \<lparr>s_beta = [0, 0, 0], s_beta_prev = [0, 1, 0], s_z = [[0]], s_z_prev = [[0]],
            s_g = [0, 1, 0], s_h = [1, 1 / 10 ^ 20, 1], s_K = [0, 1],
            s_L = [], s_DL = [], s_c = 0, s_no_convergence = True\<rparr>)
       = Inr (1 - 10 ^ 20)"
proof -
  let ?st = "\<lparr>s_beta = [0, 0, 0], s_beta_prev = [0, 1, 0], s_z = [[0]], s_z_prev = [[0::real]],
            s_g = [0, 1, 0], s_h = [1, 1 / 10 ^ 20, 1], s_K = [0, 1],
            s_L = [], s_DL = [], s_c = 0, s_no_convergence = True\<rparr>"
  have p: "ncols [[0, 2]] = 2" by (simp add: ncols_def)
  have s2: "shaped 2 ?st" by (simp add: shaped_def)
  have k: "(1::nat) < 2" by simp
  have nz: "s_h ?st ! 1 \<noteq> 0" by simp
  from newton_step_unguarded [OF s2 p k nz, of 0 1 "[0]"]
  obtain st' where "coord_update 0 1 [[0, 2]] [0] 1 ?st = Inr st'"
    and "s_beta st' ! 1 = prox (s_beta_prev ?st ! 1 - s_g ?st ! 1 / s_h ?st ! 1) (1 * 0)"
    by auto
  then have b: "map_sum id (\<lambda>st'. s_beta st' ! 1) (coord_update 0 1 [[0, 2]] [0] 1 ?st) = Inr (1 - 10 ^ 20)"
    by (simp add: prox_def)
  from s2 p b show ?thesis by (intro conjI)
qed

text \<open>
  C7 as stated fails. On \<^verbatim>\<open>x = [[30]]\<close>, \<^verbatim>\<open>y = [[0]]\<close> with the draws 0 and 1 the first
  update is the one of index 0; its Hessian entry is positive and below \<open>1 / 10 ^ 11\<close>,
  the division is made all the same, and the intercept moves from 0 to
  \<open>-(1 + exp 30)\<close>, below \<open>-(10 ^ 11)\<close>. On \<^verbatim>\<open>x = [[0, 2]]\<close>, \<^verbatim>\<open>y = [[0]]\<close> with
  \<^verbatim>\<open>alpha = 1\<close> and the draws 0 the update of index 0 leaves the active set \<open>[0, 1]\<close> and
  the entries \<^verbatim>\<open>g[1] = 0\<close>, \<^verbatim>\<open>h[1] = 0\<close>: the update of index 1, next in the pass, has
  the divisor 0.
\<close>

theorem unguarded_division_example:
  "s_K (solver_init 1 0 [1] (1 / 2) 1 [[30]] [0]) = [0]
   \<and> 0 < s_h (solver_init 1 0 [1] (1 / 2) 1 [[30]] [0]) ! 0
   \<and> s_h (solver_init 1 0 [1] (1 / 2) 1 [[30]] [0]) ! 0 < 1 / 10 ^ 11
   \<and> map_sum id (\<lambda>st'. s_beta st' ! 0)
       (coord_update (1 / 2) 1 [[30]] [0] 0 (solver_init 1 0 [1] (1 / 2) 1 [[30]] [0]))
     = Inr (- (1 + exp 30))
   \<and> - (1 + exp 30) < - (10 ^ 11 :: real)
   \<and> map_sum id (\<lambda>st'. (s_K st', s_g st' ! 1, s_h st' ! 1))
       (coord_update 1 1 [[0, 2]] [0] 0 (solver_init 2 0 [0, 0] 1 1 [[0, 2]] [0]))
     = Inr ([0, 1], 0, 0)"
proof (intro conjI)
  let ?st0 = "solver_init 1 0 [1] (1 / 2) 1 [[30]] [0]"
  show "s_K ?st0 = [0]" using steep_init [of "1 / 2" 1] by simp
  have h: "s_h ?st0 ! 0 = expit 30 * (1 - expit 30)" using steep_init [of "1 / 2" 1] by simp
  show "0 < s_h ?st0 ! 0"
    unfolding h using expit_bounds [of 30] by simp
  have "1 / exp 30 < 1 / (10 ^ 11 :: real)"
    using exp_30_bound by (simp add: frac_less2)
  with hessian_intercept_small [of 30] show "s_h ?st0 ! 0 < 1 / 10 ^ 11"
    unfolding h by linarith
  show "map_sum id (\<lambda>st'. s_beta st' ! 0) (coord_update (1 / 2) 1 [[30]] [0] 0 ?st0)
     = Inr (- (1 + exp 30))"
    by (rule steep_update)
  show "- (1 + exp 30) < - (10 ^ 11 :: real)" using exp_30_bound by linarith
  show "map_sum id (\<lambda>st'. (s_K st', s_g st' ! 1, s_h st' ! 1))
       (coord_update 1 1 [[0, 2]] [0] 0 (solver_init 2 0 [0, 0] 1 1 [[0, 2]] [0]))
     = Inr ([0, 1], 0, 0)"
    by (rule flat_update)
qed

text \<open>
  C8 (amended). The path has one record per grid value, and every record has exactly
  the two keys \<^verbatim>\<open>'beta0'\<close> and \<^verbatim>\<open>'beta'\<close>: the values \<^verbatim>\<open>beta[0]\<close> and \<^verbatim>\<open>beta[1:]\<close> at
  the end of the cycles run for that grid value from the initial draw. The list \<^verbatim>\<open>L\<close> of
  losses stays inside the solver.
\<close>

theorem fit_record_contents:
  assumes "fitmodel reorder rng x y reg_lambda alpha = Some (Inr fit)"
  shows "length fit = length reg_lambda
       \<and> (\<forall>l<length reg_lambda.
            dom (fit ! l) = {''beta0'', ''beta''}
          \<and> (\<exists>st. solve reorder (rng 0) (map rng [1..<ncols x + 1]) x y alpha (reg_lambda ! l)
                       = Some (Inr st)
                  \<and> (fit ! l) ''beta0'' = Some [s_beta st ! 0]
                  \<and> (fit ! l) ''beta'' = Some (tl (s_beta st))))"
proof -
  from assms have "path_loop reorder (rng 0) (map rng [1..<ncols x + 1]) x y alpha [] 0 reg_lambda
      = Some (Inr fit)"
    by (simp only: fitmodel_path)
  from path_loop_char [OF _ _ this] obtain sts where
    n: "length sts = length reg_lambda" and f: "fit = map stored_record sts"
    and s: "\<forall>i<length reg_lambda. solve reorder (rng 0) (map rng [1..<ncols x + 1]) x y alpha
           (reg_lambda ! i) = Some (Inr (sts ! i))"
    by auto
  have "dom (fit ! l) = {''beta0'', ''beta''}
      \<and> (\<exists>st. solve reorder (rng 0) (map rng [1..<ncols x + 1]) x y alpha (reg_lambda ! l)
                       = Some (Inr st)
                  \<and> (fit ! l) ''beta0'' = Some [s_beta st ! 0]
                  \<and> (fit ! l) ''beta'' = Some (tl (s_beta st)))"
    if "l < length reg_lambda" for l
  proof -
    from that n f have r: "fit ! l = stored_record (sts ! l)" by simp
    have "dom (fit ! l) = {''beta0'', ''beta''}"
      using two_keys_stored_record [of "sts ! l"] unfolding r two_keys_def .
    moreover have "(fit ! l) ''beta0'' = Some [s_beta (sts ! l) ! 0]"
      and "(fit ! l) ''beta'' = Some (tl (s_beta (sts ! l)))"
      unfolding r by (simp_all add: stored_record_def)
    ultimately show ?thesis using s that by blast
  qed
  with n f show ?thesis by simp
qed

theorem fit_record_contents_witness:
  "fitmodel (\<lambda>K kept. kept) (\<lambda>i. 0) [[2]] [0] [1] (1 / 2)
     = Some (Inr [[''beta0'' \<mapsto> [- 2], ''beta'' \<mapsto> [0]]])
   \<and> length [[''beta0'' \<mapsto> [- 2], ''beta'' \<mapsto> [0::real]]] = length [1::real]
   \<and> dom ([[''beta0'' \<mapsto> [- 2], ''beta'' \<mapsto> [0::real]]] ! 0) = {''beta0'', ''beta''}"
proof -
  have f: "fitmodel (\<lambda>K kept. kept) (\<lambda>i. 0) [[2]] [0] [1] (1 / 2)
     = Some (Inr [[''beta0'' \<mapsto> [- 2], ''beta'' \<mapsto> [0]]])"
    by (simp add: zero_fit)
  from fit_record_contents [OF f] have
    "length [[''beta0'' \<mapsto> [- 2], ''beta'' \<mapsto> [0::real]]] = length [1::real]"
    and "\<forall>l<length [1::real]. dom ([[''beta0'' \<mapsto> [- 2], ''beta'' \<mapsto> [0::real]]] ! l) = {''beta0'', ''beta''}"
    by blast+
  with f show ?thesis by simp
qed

text \<open>
  C8 as stated fails: in the run on \<^verbatim>\<open>x = [[2]]\<close>, \<^verbatim>\<open>y = [[0]]\<close> the solver records
  two losses, and the record returned holds \<^verbatim>\<open>beta0\<close> and \<^verbatim>\<open>beta\<close> only.
\<close>

theorem loss_trace_not_stored_example:
  "map_option (map_sum id s_L) (solve (\<lambda>K kept. kept) 0 [0] [[2]] [0] (1 / 2) 1)
     = Some (Inr [ln (1 + eps + exp (- 2)), ln (1 + eps + exp (- 2))])
   \<and> fitmodel (\<lambda>K kept. kept) (\<lambda>i. 0) [[2]] [0] [1] (1 / 2)
     = Some (Inr [[''beta0'' \<mapsto> [- 2], ''beta'' \<mapsto> [0]]])
   \<and> dom [''beta0'' \<mapsto> [- 2], ''beta'' \<mapsto> [0::real]] = {''beta0'', ''beta''}"
  by (simp add: zero_run zero_fit insert_commute)

text \<open>
  C9 (amended). \<^verbatim>\<open>fitmodel\<close> checks nothing of its configuration: an empty grid gives
  the empty path; for any other grid and any \<open>alpha\<close> the cycles of the first grid value
  are run at once, and the state they end in gives the first record of the path; on the
  data \<^verbatim>\<open>x = [[2]]\<close>, \<^verbatim>\<open>y = [[0]]\<close> every \<open>alpha\<close> and every grid, whatever the draws,
  give a path of one record per grid value. \<^verbatim>\<open>fitmodel_graddesc\<close> fails with the
  undefined name \<^verbatim>\<open>fit_params\<close> whatever the configuration is. The order in which Python
  lists a set is any order.
\<close>

theorem no_configuration_check:
  assumes "\<And>K kept. set (reorder K kept) = set kept"
  shows "fitmodel reorder rng x y [] alpha = Some (Inr [])
   \<and> (\<forall>st. 0 < ncols x
          \<and> solve reorder (rng 0) (map rng [1..<ncols x + 1]) x y alpha rl = Some (Inr st)
        \<longrightarrow> fitmodel reorder rng x y (rl # rls) alpha =
              path_loop reorder (rng 0) (map rng [1..<ncols x + 1]) x y alpha [stored_record st] 1 rls)
   \<and> fitmodel reorder rng [[2]] [0] reg_lambda alpha
       = Some (Inr (replicate (length reg_lambda)
           [''beta0'' \<mapsto> [rng 0 - (1 + exp (rng 0 + 2 * rng 1))], ''beta'' \<mapsto> [0]]))
   \<and> fitmodel_graddesc notebook_globals rng x y reg_params opt_params
       = Inl (NameError ''fit_params'')"
proof -
  have a: "fitmodel reorder rng x y [] alpha = Some (Inr [])"
    by (simp add: fitmodel_path)
  have b: "\<forall>st. 0 < ncols x
          \<and> solve reorder (rng 0) (map rng [1..<ncols x + 1]) x y alpha rl = Some (Inr st)
        \<longrightarrow> fitmodel reorder rng x y (rl # rls) alpha =
              path_loop reorder (rng 0) (map rng [1..<ncols x + 1]) x y alpha [stored_record st] 1 rls"
    by (simp add: fitmodel_path grid_point_char)
  from a b example_fitmodel [OF assms] graddesc_fails show ?thesis by (intro conjI)
qed

theorem no_configuration_check_witness:
  "fitmodel (\<lambda>K kept. kept) (\<lambda>i. 0) [[2]] [0] [1 / 2, 1, 1] 2
     = Some (Inr [[''beta0'' \<mapsto> [- 2], ''beta'' \<mapsto> [0]], [''beta0'' \<mapsto> [- 2], ''beta'' \<mapsto> [0]],
                  [''beta0'' \<mapsto> [- 2], ''beta'' \<mapsto> [0]]])
   \<and> fitmodel (\<lambda>K kept. kept) (\<lambda>i. 0) [[2]] [0] [] 2 = Some (Inr [])
   \<and> 0 < ncols [[2]]
   \<and> map_option (map_sum id (\<lambda>st. fitmodel (\<lambda>K kept. kept) (\<lambda>i. 0) [[2]] [0] [1 / 2, 1, 1] 2
                      = path_loop (\<lambda>K kept. kept) 0 [0] [[2]] [0] 2 [stored_record st] 1 [1, 1]))
        (solve (\<lambda>K kept. kept) 0 [0] [[2]] [0] 2 (1 / 2))
     = Some (Inr True)"
proof -
  have h: "\<And>K kept. set ((\<lambda>K kept. kept) K kept) = set kept" by simp
  have p: "ncols [[2]] = 1" by (simp add: ncols_def)
  have r: "map (\<lambda>i. 0::real) [1..<1 + 1] = [0]" by simp
  note t = no_configuration_check [where reorder = "\<lambda>K kept. kept" and rng = "\<lambda>i. 0"
      and x = "[[2]]" and y = "[0]" and alpha = 2 and reg_lambda = "[1 / 2, 1, 1]"
      and rl = "1 / 2" and rls = "[1, 1]", OF h, unfolded p r]
  from t have a: "fitmodel (\<lambda>K kept. kept) (\<lambda>i. 0) [[2]] [0] [] 2 = Some (Inr [])"
    by (rule conjunct1)
  from t have "fitmodel (\<lambda>K kept. kept) (\<lambda>i. 0) [[2]] [0] [1 / 2, 1, 1] 2
       = Some (Inr (replicate (length [1 / 2, 1, 1 :: real])
           [''beta0'' \<mapsto> [0 - (1 + exp (0 + 2 * 0))], ''beta'' \<mapsto> [0]]))"
    by blast
  then have b: "fitmodel (\<lambda>K kept. kept) (\<lambda>i. 0) [[2]] [0] [1 / 2, 1, 1] 2
     = Some (Inr [[''beta0'' \<mapsto> [- 2], ''beta'' \<mapsto> [0]], [''beta0'' \<mapsto> [- 2], ''beta'' \<mapsto> [0]],
                  [''beta0'' \<mapsto> [- 2], ''beta'' \<mapsto> [0]]])"
    by (simp add: eval_nat_numeral)
  obtain st where s: "solve (\<lambda>K kept. kept) 0 [0] [[2]] [0] 2 (1 / 2) = Some (Inr st)"
    using zero_run [of 2 "1 / 2"] by blast
  from t have "\<forall>st. 0 < (1::nat) \<and> solve (\<lambda>K kept. kept) 0 [0] [[2]] [0] 2 (1 / 2) = Some (Inr st)
        \<longrightarrow> fitmodel (\<lambda>K kept. kept) (\<lambda>i. 0) [[2]] [0] [1 / 2, 1, 1] 2 =
              path_loop (\<lambda>K kept. kept) 0 [0] [[2]] [0] 2 [stored_record st] 1 [1, 1]"
    by blast
  with s have "fitmodel (\<lambda>K kept. kept) (\<lambda>i. 0) [[2]] [0] [1 / 2, 1, 1] 2 =
              path_loop (\<lambda>K kept. kept) 0 [0] [[2]] [0] 2 [stored_record st] 1 [1, 1]"
    by blast
  with s have c: "map_option (map_sum id (\<lambda>st. fitmodel (\<lambda>K kept. kept) (\<lambda>i. 0) [[2]] [0] [1 / 2, 1, 1] 2
                      = path_loop (\<lambda>K kept. kept) 0 [0] [[2]] [0] 2 [stored_record st] 1 [1, 1]))
        (solve (\<lambda>K kept. kept) 0 [0] [[2]] [0] 2 (1 / 2))
     = Some (Inr True)"
    by simp
  have d: "0 < ncols [[2]]" by (simp add: p)
  from b a d c show ?thesis by (intro conjI)
qed

text \<open>
  C9 as stated fails: \<^verbatim>\<open>alpha = 2\<close>, the ascending grid \<^verbatim>\<open>[0.5, 1]\<close> and the empty grid are
  each accepted, and a path is returned.
\<close>

theorem invalid_configuration_example:
  "fitmodel (\<lambda>K kept. kept) (\<lambda>i. 0) [[2]] [0] [1] 2
     = Some (Inr [[''beta0'' \<mapsto> [- 2], ''beta'' \<mapsto> [0]]])
   \<and> fitmodel (\<lambda>K kept. kept) (\<lambda>i. 0) [[2]] [0] [1 / 2, 1] (1 / 2)
     = Some (Inr [[''beta0'' \<mapsto> [- 2], ''beta'' \<mapsto> [0]], [''beta0'' \<mapsto> [- 2], ''beta'' \<mapsto> [0]]])
   \<and> fitmodel (\<lambda>K kept. kept) (\<lambda>i. 0) [[2]] [0] [] (1 / 2) = Some (Inr [])"
proof (intro conjI)
  show "fitmodel (\<lambda>K kept. kept) (\<lambda>i. 0) [[2]] [0] [1] 2
     = Some (Inr [[''beta0'' \<mapsto> [- 2], ''beta'' \<mapsto> [0]]])"
    unfolding zero_fit by simp
  show "fitmodel (\<lambda>K kept. kept) (\<lambda>i. 0) [[2]] [0] [1 / 2, 1] (1 / 2)
     = Some (Inr [[''beta0'' \<mapsto> [- 2], ''beta'' \<mapsto> [0]], [''beta0'' \<mapsto> [- 2], ''beta'' \<mapsto> [0]]])"
    unfolding zero_fit path_loop.simps zero_grid_point by simp
  show "fitmodel (\<lambda>K kept. kept) (\<lambda>i. 0) [[2]] [0] [] (1 / 2) = Some (Inr [])"
    by (simp add: fitmodel_path)
qed

text \<open>
  C10. Every call of \<^verbatim>\<open>fitmodel_graddesc\<close> in the notebook raises \<^verbatim>\<open>NameError\<close> for
  \<^verbatim>\<open>fit_params\<close>: no parameter is initialised, no gradient step is taken and no fit
  record is produced.
\<close>

theorem graddesc_name_error:
  "fitmodel_graddesc notebook_globals rng x y reg_params opt_params = Inl (NameError ''fit_params'')"
  by (simp add: fitmodel_graddesc_def notebook_globals_def)

end
